theory Spec2Isabelle
  imports Complex_Main "HOL-Library.Sublist" "HOL-Library.Multiset"
begin

section \<open>Strings of the host language\<close>

text \<open>
  A JavaScript string is a sequence of UTF-16 code units. A code unit is modelled as a
  natural number, so that the characters outside ASCII that the source's regular
  expressions mention (U+00E9, U+2014 and the mis-encoded sequences of
  \<^verbatim>\<open>searchProducts\<close>) are single elements, as they are for the regular expression engine.
  \<open>js\<close> embeds an ASCII literal.
\<close>

type_synonym jschar = nat
type_synonym jsstring = "jschar list"

definition js :: "string \<Rightarrow> jsstring" where
  "js s = map of_char s"

text \<open>
  The class \<^verbatim>\<open>\s\<close> of a regular expression and the characters removed by
  \<^verbatim>\<open>String.prototype.trim\<close> are the same set: the white space and line terminator
  code points of ECMAScript.
\<close>

definition is_space :: "jschar \<Rightarrow> bool" where
  "is_space c \<longleftrightarrow>
     c = 9 \<or> c = 10 \<or> c = 11 \<or> c = 12 \<or> c = 13 \<or> c = 32 \<or> c = 160 \<or> c = 5760 \<or>
     (8192 \<le> c \<and> c \<le> 8202) \<or> c = 8232 \<or> c = 8233 \<or> c = 8239 \<or> c = 8287 \<or>
     c = 12288 \<or> c = 65279"

text \<open>The class \<^verbatim>\<open>\w\<close>, which decides where \<^verbatim>\<open>\b\<close> holds: digits, ASCII letters, underscore.\<close>

definition is_word :: "jschar \<Rightarrow> bool" where
  "is_word c \<longleftrightarrow>
     (48 \<le> c \<and> c \<le> 57) \<or> (65 \<le> c \<and> c \<le> 90) \<or> c = 95 \<or> (97 \<le> c \<and> c \<le> 122)"

text \<open>
  Under the flag \<^verbatim>\<open>i\<close> (without \<^verbatim>\<open>u\<close>) two code units match when their canonical
  forms are equal; the canonical form is the upper case, except that a code unit
  outside ASCII never canonicalizes into ASCII. The patterns of the source consist of
  ASCII characters, U+00E9, and symbols without case, so the mapping is written out for
  the ASCII letters and U+00E9 only: no other code unit canonicalizes to the canonical
  form of a pattern character.
\<close>

definition canonicalize :: "jschar \<Rightarrow> jschar" where
  "canonicalize c = (if 97 \<le> c \<and> c \<le> 122 then c - 32 else if c = 233 then 201 else c)"

text \<open>A literal pattern matches at the start of the subject, ignoring case.\<close>

fun matches_ci :: "jsstring \<Rightarrow> jsstring \<Rightarrow> bool" where
  "matches_ci [] s = True"
| "matches_ci (p # ps) [] = False"
| "matches_ci (p # ps) (c # cs) = (canonicalize p = canonicalize c \<and> matches_ci ps cs)"

text \<open>\<^verbatim>\<open>s.replace(/^pat\s*/i, '')\<close>: one match, anchored at index 0, the white space greedy.\<close>

definition strip_prefix_ci :: "jsstring \<Rightarrow> jsstring \<Rightarrow> jsstring" where
  "strip_prefix_ci pat s =
     (if matches_ci pat s then dropWhile is_space (drop (length pat) s) else s)"

text \<open>
  \<^verbatim>\<open>s.replace(/pat/g, rep)\<close> for a literal, non-empty pattern: the subject is scanned from
  the left, and the scan resumes after each match.
\<close>

function replace_all :: "jsstring \<Rightarrow> jsstring \<Rightarrow> jsstring \<Rightarrow> jsstring" where
  "replace_all pat rep [] = []"
| "replace_all pat rep (c # cs) =
     (if pat \<noteq> [] \<and> prefix pat (c # cs)
      then rep @ replace_all pat rep (drop (length pat) (c # cs))
      else c # replace_all pat rep cs)"
  by pat_completeness auto
termination
  by (relation "measure (\<lambda>(pat, rep, s). length s)") auto

text \<open>\<^verbatim>\<open>s.replace(/\s+/g, ' ')\<close>: every maximal run of white space becomes one U+0020.\<close>

function collapse_spaces :: "jsstring \<Rightarrow> jsstring" where
  "collapse_spaces [] = []"
| "collapse_spaces (c # cs) =
     (if is_space c then 32 # collapse_spaces (dropWhile is_space cs)
      else c # collapse_spaces cs)"
  by pat_completeness auto
termination
  by (relation "measure length") (auto simp: less_Suc_eq_le length_dropWhile_le)

text \<open>\<^verbatim>\<open>s.trim()\<close>: white space removed at both ends.\<close>

fun trimEnd :: "jsstring \<Rightarrow> jsstring" where
  "trimEnd [] = []"
| "trimEnd (c # cs) = (let r = trimEnd cs in if is_space c \<and> r = [] then [] else c # r)"

definition trim :: "jsstring \<Rightarrow> jsstring" where
  "trim s = trimEnd (dropWhile is_space s)"

text \<open>
  The assertion \<^verbatim>\<open>\b\<close> holds between two neighbouring positions when exactly one of
  them is a word character; the positions before the first and after the last
  character count as non-word (\<open>None\<close>).
\<close>

definition is_word_opt :: "jschar option \<Rightarrow> bool" where
  "is_word_opt a = (case a of None \<Rightarrow> False | Some c \<Rightarrow> is_word c)"

definition head :: "jsstring \<Rightarrow> jschar option" where
  "head s = (case s of [] \<Rightarrow> None | c # _ \<Rightarrow> Some c)"

definition word_boundary :: "jschar option \<Rightarrow> jschar option \<Rightarrow> bool" where
  "word_boundary a b \<longleftrightarrow> is_word_opt a \<noteq> is_word_opt b"

text \<open>
  \<^verbatim>\<open>/\babbr\b/i\<close> matches at the current position of the scan: \<open>prev\<close> is the character
  before the position, \<open>s\<close> the rest of the subject from the position on.
\<close>

definition matches_word_ci :: "jschar option \<Rightarrow> jsstring \<Rightarrow> jsstring \<Rightarrow> bool" where
  "matches_word_ci prev abbr s \<longleftrightarrow>
     word_boundary prev (head s) \<and> matches_ci abbr s \<and>
     word_boundary (Some (s ! (length abbr - 1))) (head (drop (length abbr) s))"

text \<open>
  \<^verbatim>\<open>s.replace(new RegExp(`\\b${abbr}\\b`, 'gi'), full)\<close> for a non-empty \<open>abbr\<close>: a
  left-to-right scan over the subject; the matches are found in the subject, never in
  the text already produced.
\<close>

function replace_word_ci ::
  "jschar option \<Rightarrow> jsstring \<Rightarrow> jsstring \<Rightarrow> jsstring \<Rightarrow> jsstring" where
  "replace_word_ci prev abbr full [] = []"
| "replace_word_ci prev abbr full (c # cs) =
     (if abbr \<noteq> [] \<and> matches_word_ci prev abbr (c # cs)
      then full @ replace_word_ci (Some ((c # cs) ! (length abbr - 1))) abbr full
                    (drop (length abbr) (c # cs))
      else c # replace_word_ci (Some c) abbr full cs)"
  by pat_completeness auto
termination
  by (relation "measure (\<lambda>(prev, abbr, full, s). length s)") auto


section \<open>Text normalizer (messageParser.ts)\<close>

text \<open>The table \<^verbatim>\<open>ABBREVIATIONS\<close>, in the order \<^verbatim>\<open>Object.entries\<close> visits it.\<close>

definition ABBREVIATIONS :: "(jsstring \<times> jsstring) list" where
  "ABBREVIATIONS =
     [(js ''upc'', js ''Ultra Premium Collection''),
      (js ''etb'', js ''Elite Trainer Box''),
      (js ''bb'', js ''Booster Box'')]"

text \<open>
  The first statement of \<^verbatim>\<open>cleanProductName\<close>: four prefix patterns, the em dash
  (U+2014 = 8212) replaced by a hyphen, white space collapsed, the result trimmed.
\<close>

definition raw_cleanup :: "jsstring \<Rightarrow> jsstring" where
  "raw_cleanup name =
     trim (collapse_spaces (replace_all [8212] (js ''-'')
       (strip_prefix_ci (js ''PTCG:'')
         (strip_prefix_ci (js ''Pokemon TCG:'')
           (strip_prefix_ci (js ''Pokemon Trading Card Game:'')
             (strip_prefix_ci (js ''Pok'' @ [233] @ js ''mon Trading Card Game:'') name))))))"

text \<open>The loop of \<^verbatim>\<open>cleanProductName\<close> over the abbreviation table.\<close>

definition expand_abbreviations :: "jsstring \<Rightarrow> jsstring" where
  "expand_abbreviations cleaned =
     fold (\<lambda>(abbrev, full) cleaned. replace_word_ci None abbrev full cleaned)
       ABBREVIATIONS cleaned"

definition cleanProductName :: "jsstring \<Rightarrow> jsstring" where
  "cleanProductName name = expand_abbreviations (raw_cleanup name)"

text \<open>
  The clean-up that \<^verbatim>\<open>searchProducts\<close> applies to its query before it calls the
  matcher (\<^verbatim>\<open>cleanQuery\<close>). The source file spells the first prefix with the two code
  units U+251C U+2310 where \<^verbatim>\<open>cleanProductName\<close> has U+00E9, and the replaced sequence as
  U+0393 U+00C7 U+00F6 where \<^verbatim>\<open>cleanProductName\<close> has U+2014; the model keeps the
  characters of the file.
\<close>

definition search_query :: "jsstring \<Rightarrow> jsstring" where
  "search_query query =
     trim (replace_all [915, 199, 246] (js ''-'')
       (strip_prefix_ci (js ''PTCG:'')
         (strip_prefix_ci (js ''Pokemon Trading Card Game:'')
           (strip_prefix_ci (js ''Pok'' @ [9500, 8976] @ js ''mon Trading Card Game:'')
             query))))"


section \<open>Dates of the host language\<close>

text \<open>
  A \<^verbatim>\<open>Date\<close> holds a time value: milliseconds since 1970-01-01T00:00:00Z, or NaN for an
  invalid date (\<open>None\<close> below). \<^verbatim>\<open>setFullYear\<close> works on the calendar fields of the
  local time. \<open>civil_from_days\<close> gives the year, the month (0 to 11) and the day of the
  month of a day number, as \<^verbatim>\<open>YearFromTime\<close>, \<^verbatim>\<open>MonthFromTime\<close> and \<^verbatim>\<open>DateFromTime\<close> of
  ECMAScript do; \<open>MakeDay\<close> is its inverse and accepts a day of the month that the month
  does not have (29 February in a common year is 1 March).
\<close>

definition msPerDay :: int where
  "msPerDay = 86400000"

definition Day :: "int \<Rightarrow> int" where
  "Day t = t div msPerDay"

definition TimeWithinDay :: "int \<Rightarrow> int" where
  "TimeWithinDay t = t mod msPerDay"

definition civil_from_days :: "int \<Rightarrow> int \<times> int \<times> int" where
  "civil_from_days d =
     (let z = d + 719468;
          era = z div 146097;
          doe = z mod 146097;
          yoe = (doe - doe div 1460 + doe div 36524 - doe div 146096) div 365;
          doy = doe - (365 * yoe + yoe div 4 - yoe div 100);
          mp = (5 * doy + 2) div 153;
          date = doy - (153 * mp + 2) div 5 + 1;
          month = (if mp < 10 then mp + 2 else mp - 10);
          year = yoe + era * 400 + (if month \<le> 1 then 1 else 0)
      in (year, month, date))"

definition MakeDay :: "int \<Rightarrow> int \<Rightarrow> int \<Rightarrow> int" where
  "MakeDay year month date =
     (let ym = year + month div 12;
          mn = month mod 12;
          y = (if mn \<le> 1 then ym - 1 else ym);
          era = y div 400;
          yoe = y mod 400;
          mp = (mn + 10) mod 12;
          doy = (153 * mp + 2) div 5;
          doe = yoe * 365 + yoe div 4 - yoe div 100 + doy
      in era * 146097 + doe - 719468 + date - 1)"


section \<open>Catalog data (tcgplayerService.ts)\<close>

text \<open>The interfaces \<^verbatim>\<open>TCGGroup\<close>, \<^verbatim>\<open>TCGProduct\<close>, \<^verbatim>\<open>TCGPrice\<close> and \<^verbatim>\<open>ProductWithPrice\<close>.\<close>

record TCGGroup =
  groupId :: int
  name :: jsstring
  "abbreviation" :: jsstring
  publishedOn :: jsstring
  modifiedOn :: jsstring
  categoryId :: int

record TCGProduct =
  productId :: int
  name :: jsstring
  cleanName :: jsstring
  imageUrl :: jsstring
  categoryId :: int
  groupId :: int
  url :: jsstring
  modifiedOn :: jsstring
  extendedData :: "(jsstring \<times> jsstring) list option"

record TCGPrice =
  productId :: int
  lowPrice :: "real option"
  midPrice :: "real option"
  highPrice :: "real option"
  marketPrice :: "real option"
  directLowPrice :: "real option"
  subTypeName :: jsstring

record ProductWithPrice = TCGProduct +
  prices :: "TCGPrice list"
  groupName :: jsstring


section \<open>The environment of the service\<close>

text \<open>
  Each of \<^verbatim>\<open>fetchGroups\<close>, \<^verbatim>\<open>fetchProducts\<close> and \<^verbatim>\<open>fetchPrices\<close> performs one HTTP GET and
  either returns the list of the response or throws. The environment gives the outcome
  of each call (\<open>Inl\<close> is the exception), the result of \<^verbatim>\<open>new Date(string)\<close>
  (\<open>Date_parse\<close>, \<open>None\<close> for an invalid date), the time value of the \<^verbatim>\<open>new Date()\<close> made in
  the \<open>k\<close>-th call of the filter callback (\<open>new_Date\<close>), and the offset of the local time
  zone (\<open>LocalTZA\<close>, as in ECMAScript).
\<close>

datatype error = HttpError int | NetworkError | MalformedResponse

record environment =
  fetchGroups :: "error + TCGGroup list"
  fetchProducts :: "int \<Rightarrow> error + TCGProduct list"
  fetchPrices :: "int \<Rightarrow> error + TCGPrice list"
  Date_parse :: "jsstring \<Rightarrow> int option"
  new_Date :: "nat \<Rightarrow> int"
  LocalTZA :: "int \<Rightarrow> bool \<Rightarrow> int"

text \<open>
  The value of the variable \<^verbatim>\<open>oneYearAgo\<close> for a \<^verbatim>\<open>new Date()\<close> with time value \<open>tv\<close>:
  \<^verbatim>\<open>oneYearAgo.setFullYear(oneYearAgo.getFullYear() - 2)\<close>. Whatever its name says, it
  lies two calendar years before \<open>tv\<close>.
\<close>

definition oneYearAgo :: "environment \<Rightarrow> int \<Rightarrow> int" where
  "oneYearAgo env tv =
     (let t = tv + LocalTZA env tv True;
          (year, month, date) = civil_from_days (Day t);
          newDate = MakeDay (year - 2) month date;
          local = newDate * msPerDay + TimeWithinDay t
      in local - LocalTZA env local False)"

text \<open>
  The callback of \<^verbatim>\<open>filter\<close>: \<^verbatim>\<open>publishDate > oneYearAgo\<close> compares time values, and a
  comparison with NaN is false.
\<close>

definition is_recent :: "environment \<Rightarrow> nat \<Rightarrow> TCGGroup \<Rightarrow> bool" where
  "is_recent env k g =
     (case Date_parse env (publishedOn g) of
        None \<Rightarrow> False
      | Some publishDate \<Rightarrow> publishDate > oneYearAgo env (new_Date env k))"

fun filter_recent :: "environment \<Rightarrow> nat \<Rightarrow> TCGGroup list \<Rightarrow> TCGGroup list" where
  "filter_recent env k [] = []"
| "filter_recent env k (g # gs) =
     (if is_recent env k g then g # filter_recent env (Suc k) gs
      else filter_recent env (Suc k) gs)"

text \<open>
  The comparator of \<^verbatim>\<open>sort\<close>; a NaN result counts as 0. \<^verbatim>\<open>Array.prototype.sort\<close> is stable
  (ECMAScript 2019): for a consistent comparator it returns what the stable insertion
  sort \<open>js_sort\<close> returns.
\<close>

definition by_publishedOn_desc :: "environment \<Rightarrow> TCGGroup \<Rightarrow> TCGGroup \<Rightarrow> int" where
  "by_publishedOn_desc env a b =
     (case (Date_parse env (publishedOn b), Date_parse env (publishedOn a)) of
        (Some tb, Some ta) \<Rightarrow> tb - ta
      | _ \<Rightarrow> 0)"

fun sort_insert :: "('a \<Rightarrow> 'a \<Rightarrow> int) \<Rightarrow> 'a \<Rightarrow> 'a list \<Rightarrow> 'a list" where
  "sort_insert cmp x [] = [x]"
| "sort_insert cmp x (y # ys) =
     (if cmp x y \<le> 0 then x # y # ys else y # sort_insert cmp x ys)"

definition js_sort :: "('a \<Rightarrow> 'a \<Rightarrow> int) \<Rightarrow> 'a list \<Rightarrow> 'a list" where
  "js_sort cmp xs = foldr (sort_insert cmp) xs []"

definition recentGroups :: "environment \<Rightarrow> TCGGroup list \<Rightarrow> TCGGroup list" where
  "recentGroups env groups = js_sort (by_publishedOn_desc env) (filter_recent env 0 groups)"


section \<open>The fuzzy index\<close>

text \<open>
  Fuse.js is a library outside the repository. Its index keeps the collection it was
  built over and its options. How well an item matches a pattern is a parameter of the
  model (\<open>fuse_score\<close>: the score of Fuse, 0 for a perfect match, \<open>None\<close> for an item the
  threshold rejects). \<^verbatim>\<open>search(pattern, {limit})\<close> scores every item of the collection,
  sorts the matching ones by score (ties by their index in the collection), and keeps
  the first \<open>limit\<close> of them when \<open>limit\<close> is greater than -1.
\<close>

record FuseOptions =
  keys :: "(jsstring \<times> real) list"
  threshold :: real
  includeScore :: bool
  minMatchCharLength :: nat

record Fuse =
  docs :: "ProductWithPrice list"
  options :: FuseOptions

type_synonym fuse_score = "FuseOptions \<Rightarrow> jsstring \<Rightarrow> ProductWithPrice \<Rightarrow> real option"

definition fuse_search ::
  "fuse_score \<Rightarrow> Fuse \<Rightarrow> jsstring \<Rightarrow> int \<Rightarrow> (ProductWithPrice \<times> real) list" where
  "fuse_search score index pattern limit =
     (let results = List.map_filter
                      (\<lambda>item. map_option (\<lambda>sc. (item, sc)) (score (options index) pattern item))
                      (docs index);
          results = sort_key snd results
      in if limit > -1 then take (nat limit) results else results)"


section \<open>The service (class TCGPlayerService)\<close>

record TCGPlayerService =
  groupsCache :: "TCGGroup list"
  productsCache :: "int \<rightharpoonup> TCGProduct list"
  pricesCache :: "int \<rightharpoonup> TCGPrice list"
  allProductsWithPrices :: "ProductWithPrice list"
  fuse :: "Fuse option"
  lastFetchTime :: int
  cacheValidityMs :: int

text \<open>The exported instance, as the constructor leaves it.\<close>

definition tcgplayerService :: TCGPlayerService where
  "tcgplayerService =
     \<lparr>groupsCache = [], productsCache = Map.empty, pricesCache = Map.empty,
      allProductsWithPrices = [], fuse = None, lastFetchTime = 0,
      cacheValidityMs = 6 * 60 * 60 * 1000\<rparr>"

text \<open>The lines the service writes to the console.\<close>

datatype console_line =
    Using_cached_product_data
  | Fetching_data
  | Fetched_groups nat
  | Processing_recent_groups nat
  | Error_fetching_group jsstring
  | Loaded_products nat
  | Product_data_not_initialized

text \<open>
  The map from product id to the prices of the product, in the order fetched;
  \<open>add_price\<close> is the body of the loop over the prices.
\<close>

definition add_price :: "TCGPrice \<Rightarrow> (int \<rightharpoonup> TCGPrice list) \<Rightarrow> (int \<rightharpoonup> TCGPrice list)" where
  "add_price price priceMap =
     (let existing = (case priceMap (TCGPrice.productId price) of Some e \<Rightarrow> e | None \<Rightarrow> [])
      in priceMap(TCGPrice.productId price \<mapsto> existing @ [price]))"

definition priceMap_of :: "TCGPrice list \<Rightarrow> (int \<rightharpoonup> TCGPrice list)" where
  "priceMap_of prices' = fold add_price prices' Map.empty"

text \<open>The object pushed for one product: the product, its prices, the name of its group.\<close>

definition with_prices ::
  "(int \<rightharpoonup> TCGPrice list) \<Rightarrow> TCGGroup \<Rightarrow> TCGProduct \<Rightarrow> ProductWithPrice" where
  "with_prices priceMap grp product =
     \<lparr>TCGProduct.productId = TCGProduct.productId product,
      TCGProduct.name = TCGProduct.name product,
      cleanName = cleanName product,
      imageUrl = imageUrl product,
      TCGProduct.categoryId = TCGProduct.categoryId product,
      TCGProduct.groupId = TCGProduct.groupId product,
      url = url product,
      TCGProduct.modifiedOn = TCGProduct.modifiedOn product,
      extendedData = extendedData product,
      prices = (case priceMap (TCGProduct.productId product) of Some ps \<Rightarrow> ps | None \<Rightarrow> []),
      groupName = TCGGroup.name grp\<rparr>"

text \<open>
  The body of the loop over the recent groups. \<^verbatim>\<open>Promise.all\<close> rejects when one of the
  two fetches does; the \<^verbatim>\<open>catch\<close> block writes a line and the loop goes on.
\<close>

definition process_group ::
  "environment \<Rightarrow> TCGGroup \<Rightarrow> TCGPlayerService \<times> console_line list
     \<Rightarrow> TCGPlayerService \<times> console_line list" where
  "process_group env grp = (\<lambda>(this, out).
     case (fetchProducts env (TCGGroup.groupId grp), fetchPrices env (TCGGroup.groupId grp)) of
       (Inr products, Inr prices') \<Rightarrow>
         let priceMap = priceMap_of prices';
             this = this\<lparr>allProductsWithPrices :=
                      allProductsWithPrices this @ map (with_prices priceMap grp) products\<rparr>;
             this = this\<lparr>productsCache := (productsCache this)(TCGGroup.groupId grp \<mapsto> products)\<rparr>;
             this = this\<lparr>pricesCache := (pricesCache this)(TCGGroup.groupId grp \<mapsto> prices')\<rparr>
         in (this, out)
     | _ \<Rightarrow> (this, out @ [Error_fetching_group (TCGGroup.name grp)]))"

definition fuse_options :: FuseOptions where
  "fuse_options =
     \<lparr>keys = [(js ''name'', 0.7), (js ''cleanName'', 0.5), (js ''groupName'', 0.3)],
      threshold = 0.4, includeScore = True, minMatchCharLength = 3\<rparr>"

definition new_Fuse :: "ProductWithPrice list \<Rightarrow> Fuse" where
  "new_Fuse list =
     \<lparr>docs = list, options = fuse_options\<rparr>"

text \<open>
  \<^verbatim>\<open>initialize(forceRefresh)\<close>, with \<open>now\<close> the value of \<^verbatim>\<open>Date.now()\<close> at its start. When
  \<^verbatim>\<open>fetchGroups\<close> throws, \<^verbatim>\<open>initialize\<close> throws before it has assigned any field.
\<close>

definition initialize ::
  "environment \<Rightarrow> int \<Rightarrow> bool \<Rightarrow> TCGPlayerService
     \<Rightarrow> (error + TCGPlayerService) \<times> console_line list" where
  "initialize env now forceRefresh this =
     (if \<not> forceRefresh \<and> length (allProductsWithPrices this) > 0
           \<and> now - lastFetchTime this < cacheValidityMs this
      then (Inr this, [Using_cached_product_data])
      else
        case fetchGroups env of
          Inl e \<Rightarrow> (Inl e, [Fetching_data])
        | Inr groups \<Rightarrow>
            let this = this\<lparr>groupsCache := groups\<rparr>;
                out = [Fetching_data, Fetched_groups (length (groupsCache this))];
                recent = recentGroups env (groupsCache this);
                out = out @ [Processing_recent_groups (length recent)];
                this = this\<lparr>allProductsWithPrices := []\<rparr>;
                (this, out) = fold (process_group env) recent (this, out);
                out = out @ [Loaded_products (length (allProductsWithPrices this))];
                this = this\<lparr>lastFetchTime := now\<rparr>;
                this = this\<lparr>fuse := Some (new_Fuse (allProductsWithPrices this))\<rparr>
            in (Inr this, out))"

text \<open>
  \<^verbatim>\<open>searchProducts(query, limit)\<close> returns its result, the lines it wrote and the service
  as it leaves it.
\<close>

definition searchProducts ::
  "fuse_score \<Rightarrow> jsstring \<Rightarrow> int \<Rightarrow> TCGPlayerService
     \<Rightarrow> ProductWithPrice list \<times> console_line list \<times> TCGPlayerService" where
  "searchProducts score query limit this =
     (case fuse this of
        None \<Rightarrow> ([], [Product_data_not_initialized], this)
      | Some index \<Rightarrow>
          let cleanQuery = search_query query;
              results = fuse_search score index cleanQuery limit
          in (map fst results, [], this))"

text \<open>\<^verbatim>\<open>lines.join(sep)\<close>.\<close>

fun join :: "jsstring \<Rightarrow> jsstring list \<Rightarrow> jsstring" where
  "join sep [] = []"
| "join sep [x] = x"
| "join sep (x # y # ys) = x @ sep @ join sep (y # ys)"

text \<open>
  \<^verbatim>\<open>formatPrice(product)\<close>; \<open>toFixed2\<close> is \<^verbatim>\<open>Number.prototype.toFixed\<close> with 2 digits.
\<close>

definition formatPrice :: "(real \<Rightarrow> jsstring) \<Rightarrow> ProductWithPrice \<Rightarrow> jsstring" where
  "formatPrice toFixed2 product =
     (let prices' = prices product in
      if length prices' = 0 then js ''No price data available''
      else
        let mainPrice = (case find (\<lambda>p. subTypeName p = js ''Normal'') prices' of
                           Some p \<Rightarrow> p | None \<Rightarrow> prices' ! 0);
            lines = [];
            lines = (case marketPrice mainPrice of
                       Some v \<Rightarrow> lines @ [js ''Market: $'' @ toFixed2 v] | None \<Rightarrow> lines);
            lines = (case lowPrice mainPrice of
                       Some v \<Rightarrow> lines @ [js ''Low: $'' @ toFixed2 v] | None \<Rightarrow> lines);
            lines = (case midPrice mainPrice of
                       Some v \<Rightarrow> lines @ [js ''Mid: $'' @ toFixed2 v] | None \<Rightarrow> lines);
            lines = (case highPrice mainPrice of
                       Some v \<Rightarrow> lines @ [js ''High: $'' @ toFixed2 v] | None \<Rightarrow> lines)
        in join (js '' | '') lines)"


section \<open>Normal forms of the normalizer\<close>

text \<open>The four prefix patterns of \<^verbatim>\<open>cleanProductName\<close>, and a string that one of them matches.\<close>

definition known_prefixes :: "jsstring list" where
  "known_prefixes =
     [js ''Pok'' @ [233] @ js ''mon Trading Card Game:'', js ''Pokemon Trading Card Game:'',
      js ''Pokemon TCG:'', js ''PTCG:'']"

definition starts_with_known_prefix :: "jsstring \<Rightarrow> bool" where
  "starts_with_known_prefix s = list_ex (\<lambda>pat. matches_ci pat s) known_prefixes"

text \<open>
  \<open>spaced b s\<close>: every white space character of \<open>s\<close> is a single U+0020 between two other
  characters; with \<open>b\<close>, \<open>s\<close> does not start with white space either. A string is
  \<open>normal\<close> when the raw clean-up has nothing left to do in it, prefixes apart.
\<close>

fun spaced :: "bool \<Rightarrow> jsstring \<Rightarrow> bool" where
  "spaced b [] = True"
| "spaced b (c # cs) = (if is_space c then c = 32 \<and> \<not> b \<and> spaced True cs else spaced False cs)"

definition normal :: "jsstring \<Rightarrow> bool" where
  "normal s \<longleftrightarrow> 8212 \<notin> set s \<and> spaced True s \<and> trimEnd s = s"

text \<open>
  \<open>no_hit a prev s\<close>: \<^verbatim>\<open>/\ba\b/i\<close> matches at no position of \<open>s\<close>, where \<open>prev\<close> is the
  character before \<open>s\<close>. \<open>match_end\<close> is the rest of such a match after its first
  character: the remaining pattern, then the word boundary.
\<close>

fun no_hit :: "jsstring \<Rightarrow> jschar option \<Rightarrow> jsstring \<Rightarrow> bool" where
  "no_hit a prev [] = True"
| "no_hit a prev (c # cs) = (\<not> matches_word_ci prev a (c # cs) \<and> no_hit a (Some c) cs)"

fun match_end :: "jsstring \<Rightarrow> jschar \<Rightarrow> jsstring \<Rightarrow> bool" where
  "match_end [] l s = word_boundary (Some l) (head s)"
| "match_end (p # ps) l [] = False"
| "match_end (p # ps) l (c # cs) = (canonicalize p = canonicalize c \<and> match_end ps c cs)"

text \<open>
  What the proofs use of an abbreviation (letters only) and of its expansion (it begins
  and ends with a letter, has single spaces only, and cannot take part in a match of the
  abbreviation \<open>a\<close>).
\<close>

definition good_abbr :: "jsstring \<Rightarrow> bool" where
  "good_abbr abbr \<longleftrightarrow> abbr \<noteq> [] \<and> list_all is_word abbr"

definition good_full :: "jsstring \<Rightarrow> bool" where
  "good_full full \<longleftrightarrow>
     full \<noteq> [] \<and> 8212 \<notin> set full \<and> is_word (last full)
     \<and> (\<forall>b t. spaced b (full @ t) = spaced False t)
     \<and> (\<forall>t. trimEnd (full @ t) = full @ trimEnd t)"

definition inert :: "jsstring \<Rightarrow> jsstring \<Rightarrow> bool" where
  "inert a full \<longleftrightarrow> (\<forall>p t. no_hit a p (full @ t) = no_hit a (Some (last full)) t)"

definition heads_agree :: "jsstring \<Rightarrow> jsstring \<Rightarrow> bool" where
  "heads_agree z z' \<longleftrightarrow>
     (z = [] \<and> z' = []) \<or> (\<exists>r y y'. z = r # y \<and> z' = r # y' \<and> \<not> is_word r)"


section \<open>Vocabulary of the specification\<close>

text \<open>The time value of a group's \<^verbatim>\<open>publishedOn\<close>.\<close>

definition published :: "environment \<Rightarrow> TCGGroup \<Rightarrow> int option" where
  "published env g = Date_parse env (publishedOn g)"

text \<open>
  Two calendar years before an instant, in the words of the specification: the instant
  of the local calendar with the same month, the same day of the month and the same time
  of day, in the year two before. (For 29 February of a leap year the calendar of the
  platform takes 1 March of the common year.)
\<close>

definition two_calendar_years_before :: "environment \<Rightarrow> int \<Rightarrow> int" where
  "two_calendar_years_before env tv =
     (let local = tv + LocalTZA env tv True;
          year = fst (civil_from_days (Day local));
          month = fst (snd (civil_from_days (Day local)));
          date = snd (snd (civil_from_days (Day local)));
          earlier = MakeDay (year - 2) month date * msPerDay + TimeWithinDay local
      in earlier - LocalTZA env earlier False)"

text \<open>
  The entries of one group in a snapshot: every fetched product of the group, extended
  with the fetched prices that carry its product id and with the name of the group;
  none when a fetch of the group fails.
\<close>

definition entries_of :: "environment \<Rightarrow> TCGGroup \<Rightarrow> ProductWithPrice list" where
  "entries_of env g =
     (case (fetchProducts env (TCGGroup.groupId g), fetchPrices env (TCGGroup.groupId g)) of
        (Inr products, Inr prices') \<Rightarrow>
          map (\<lambda>p. TCGProduct.extend p
                 (ProductWithPrice.fields
                    [pr \<leftarrow> prices'. TCGPrice.productId pr = TCGProduct.productId p]
                    (TCGGroup.name g)))
            products
      | _ \<Rightarrow> [])"

text \<open>A fetch of the group's products or of its prices fails.\<close>

definition fetch_fails :: "environment \<Rightarrow> TCGGroup \<Rightarrow> bool" where
  "fetch_fails env g \<longleftrightarrow>
     isl (fetchProducts env (TCGGroup.groupId g)) \<or> isl (fetchPrices env (TCGGroup.groupId g))"

text \<open>The guard of \<^verbatim>\<open>initialize\<close> lets the call through to the rebuild.\<close>

definition rebuilds :: "int \<Rightarrow> bool \<Rightarrow> TCGPlayerService \<Rightarrow> bool" where
  "rebuilds now forceRefresh this \<longleftrightarrow>
     forceRefresh \<or> allProductsWithPrices this = [] \<or> cacheValidityMs this \<le> now - lastFetchTime this"

text \<open>
  The states of the service between calls: the exported instance, and every state a
  completed call of \<^verbatim>\<open>initialize\<close> leaves. (While a rebuild is suspended at an
  \<^verbatim>\<open>await\<close>, the collection is partly filled and the index is still the old one; these
  intermediate states are not states between calls.)
\<close>

inductive reachable :: "TCGPlayerService \<Rightarrow> bool" where
  start: "reachable tcgplayerService"
| step: "reachable this \<Longrightarrow> fst (initialize env now forceRefresh this) = Inr this'
           \<Longrightarrow> reachable this'"

text \<open>
  The main price of a non-empty list of price records: the first record whose sub-type
  is \<^verbatim>\<open>Normal\<close>, or the first record when no record has that sub-type.
\<close>

definition is_main_price :: "TCGPrice list \<Rightarrow> TCGPrice \<Rightarrow> bool" where
  "is_main_price ps m \<longleftrightarrow>
     (\<exists>i < length ps. ps ! i = m \<and> subTypeName m = js ''Normal''
        \<and> (\<forall>j < i. subTypeName (ps ! j) \<noteq> js ''Normal''))
     \<or> (ps \<noteq> [] \<and> m = ps ! 0 \<and> (\<forall>q \<in> set ps. subTypeName q \<noteq> js ''Normal''))"

text \<open>
  The non-null values among market, low, mid and high price of a record, in that order,
  each rendered with its label.
\<close>

definition price_lines :: "(real \<Rightarrow> jsstring) \<Rightarrow> TCGPrice \<Rightarrow> jsstring list" where
  "price_lines toFixed2 m =
     List.map_filter (\<lambda>(label, v). map_option (\<lambda>x. label @ toFixed2 x) v)
       [(js ''Market: $'', marketPrice m), (js ''Low: $'', lowPrice m),
        (js ''Mid: $'', midPrice m), (js ''High: $'', highPrice m)]"

text \<open>The sort key that orders groups as the comparator does.\<close>

definition neg_time :: "environment \<Rightarrow> TCGGroup \<Rightarrow> int" where
  "neg_time env g = - the (published env g)"


section \<open>Sample data\<close>

text \<open>
  A catalog of four groups, seen at 2026-11-03T00:00:01 (UTC): one published a month
  before, one three years before, one dated in the future, and one whose fetch fails.
  Two more groups are dated exactly two calendar years before that instant and one
  millisecond later.
\<close>

definition sample_now :: int where
  "sample_now = MakeDay 2026 10 3 * msPerDay"

definition group_last_month :: TCGGroup where
  "group_last_month =
     \<lparr>TCGGroup.groupId = 1, TCGGroup.name = js ''Last Month'', abbreviation = js ''LM'',
      publishedOn = js ''2026-10-03T00:00:00'', TCGGroup.modifiedOn = js ''2026-10-03T00:00:00'',
      TCGGroup.categoryId = 3\<rparr>"

definition group_three_years_ago :: TCGGroup where
  "group_three_years_ago =
     \<lparr>TCGGroup.groupId = 2, TCGGroup.name = js ''Three Years Ago'', abbreviation = js ''TYA'',
      publishedOn = js ''2023-11-03T00:00:00'', TCGGroup.modifiedOn = js ''2023-11-03T00:00:00'',
      TCGGroup.categoryId = 3\<rparr>"

definition group_upcoming :: TCGGroup where
  "group_upcoming =
     \<lparr>TCGGroup.groupId = 3, TCGGroup.name = js ''Upcoming'', abbreviation = js ''UP'',
      publishedOn = js ''2027-01-15T00:00:00'', TCGGroup.modifiedOn = js ''2026-10-30T00:00:00'',
      TCGGroup.categoryId = 3\<rparr>"

definition group_failing :: TCGGroup where
  "group_failing =
     \<lparr>TCGGroup.groupId = 4, TCGGroup.name = js ''Failing'', abbreviation = js ''F'',
      publishedOn = js ''2026-06-01T00:00:00'', TCGGroup.modifiedOn = js ''2026-06-01T00:00:00'',
      TCGGroup.categoryId = 3\<rparr>"

definition group_at_cutoff :: TCGGroup where
  "group_at_cutoff =
     \<lparr>TCGGroup.groupId = 5, TCGGroup.name = js ''At Cutoff'', abbreviation = js ''AC'',
      publishedOn = js ''2024-11-03T00:00:01.000'',
      TCGGroup.modifiedOn = js ''2024-11-03T00:00:01.000'', TCGGroup.categoryId = 3\<rparr>"

definition group_after_cutoff :: TCGGroup where
  "group_after_cutoff =
     \<lparr>TCGGroup.groupId = 6, TCGGroup.name = js ''After Cutoff'', abbreviation = js ''AF'',
      publishedOn = js ''2024-11-03T00:00:01.001'',
      TCGGroup.modifiedOn = js ''2024-11-03T00:00:01.001'', TCGGroup.categoryId = 3\<rparr>"

definition product_etb :: TCGProduct where
  "product_etb =
     \<lparr>TCGProduct.productId = 10, TCGProduct.name = js ''151 Elite Trainer Box'',
      cleanName = js ''151 Elite Trainer Box'', imageUrl = js ''https://tcgplayer-cdn.tcgplayer.com/product/10.jpg'',
      TCGProduct.categoryId = 3, TCGProduct.groupId = 1,
      url = js ''https://www.tcgplayer.com/product/10'',
      TCGProduct.modifiedOn = js ''2026-10-03T00:00:00'', extendedData = None\<rparr>"

definition product_booster :: TCGProduct where
  "product_booster =
     \<lparr>TCGProduct.productId = 20, TCGProduct.name = js ''Upcoming Booster Box'',
      cleanName = js ''Upcoming Booster Box'', imageUrl = [],
      TCGProduct.categoryId = 3, TCGProduct.groupId = 3, url = [],
      TCGProduct.modifiedOn = js ''2026-10-30T00:00:00'', extendedData = None\<rparr>"

definition price_etb_foil :: TCGPrice where
  "price_etb_foil =
     \<lparr>TCGPrice.productId = 10, lowPrice = Some 55, midPrice = Some 60, highPrice = Some 90,
      marketPrice = Some 60, directLowPrice = None, subTypeName = js ''Holofoil''\<rparr>"

definition price_etb_normal :: TCGPrice where
  "price_etb_normal =
     \<lparr>TCGPrice.productId = 10, lowPrice = Some 49.5, midPrice = None, highPrice = Some 80,
      marketPrice = Some 54.99, directLowPrice = None, subTypeName = js ''Normal''\<rparr>"

definition price_all_null :: TCGPrice where
  "price_all_null =
     \<lparr>TCGPrice.productId = 20, lowPrice = None, midPrice = None, highPrice = None,
      marketPrice = None, directLowPrice = None, subTypeName = js ''Normal''\<rparr>"

definition sample_env :: environment where
  "sample_env =
     \<lparr>fetchGroups = Inr [group_last_month, group_three_years_ago, group_upcoming, group_failing],
      fetchProducts = (\<lambda>gid. if gid = 1 then Inr [product_etb]
                            else if gid = 3 then Inr [product_booster]
                            else Inl (HttpError 500)),
      fetchPrices = (\<lambda>gid. if gid = 1 then Inr [price_etb_foil, price_etb_normal]
                          else if gid = 4 then Inl NetworkError
                          else Inr []),
      Date_parse = (\<lambda>s. if s = js ''2026-10-03T00:00:00'' then Some (MakeDay 2026 9 3 * msPerDay)
                         else if s = js ''2023-11-03T00:00:00'' then Some (MakeDay 2023 10 3 * msPerDay)
                         else if s = js ''2027-01-15T00:00:00'' then Some (MakeDay 2027 0 15 * msPerDay)
                         else if s = js ''2026-06-01T00:00:00'' then Some (MakeDay 2026 5 1 * msPerDay)
                         else if s = js ''2024-11-03T00:00:01.000''
                           then Some (MakeDay 2024 10 3 * msPerDay + 1000)
                         else if s = js ''2024-11-03T00:00:01.001''
                           then Some (MakeDay 2024 10 3 * msPerDay + 1001)
                         else None),
      new_Date = (\<lambda>k. sample_now + 1000),
      LocalTZA = (\<lambda>t isUTC. 0)\<rparr>"

definition entry_etb :: ProductWithPrice where
  "entry_etb = TCGProduct.extend product_etb
     (ProductWithPrice.fields [price_etb_foil, price_etb_normal] (js ''Last Month''))"

definition entry_booster :: ProductWithPrice where
  "entry_booster = TCGProduct.extend product_booster
     (ProductWithPrice.fields [] (js ''Upcoming''))"

definition entry_all_null :: ProductWithPrice where
  "entry_all_null = TCGProduct.extend product_booster
     (ProductWithPrice.fields [price_all_null] (js ''Upcoming''))"

definition sample_toFixed2 :: "real \<Rightarrow> jsstring" where
  "sample_toFixed2 x =
     (if x = 54.99 then js ''54.99'' else if x = 49.5 then js ''49.50''
      else if x = 80 then js ''80.00'' else js ''0.00'')"

definition sample_score :: fuse_score where
  "sample_score opts pattern item =
     (if TCGProduct.productId item = 10 then Some 0.1 else Some 0.35)"

definition sample_service :: TCGPlayerService where
  "sample_service =
     (case fst (initialize sample_env sample_now False tcgplayerService) of
        Inr this \<Rightarrow> this | Inl e \<Rightarrow> tcgplayerService)"


section \<open>Evaluation of the normalizer\<close>

lemmas normalizer_defs =
  js_def is_space_def is_word_def canonicalize_def strip_prefix_ci_def trim_def
  is_word_opt_def head_def word_boundary_def matches_word_ci_def ABBREVIATIONS_def
  raw_cleanup_def expand_abbreviations_def cleanProductName_def search_query_def


section \<open>The query clean-up of searchProducts against the normalizer\<close>

text \<open>
  Claim C2 says that the clean-up of \<^verbatim>\<open>searchProducts\<close> is the raw clean-up pass of the
  normalizer. The code of \<^verbatim>\<open>searchProducts\<close> has no pattern for the prefix
  \<^verbatim>\<open>Pokemon TCG:\<close> and does not collapse white space: it returns the query
  \<^verbatim>\<open>Pokemon TCG: Paldea  Evolved ETB\<close> (two spaces before \<^verbatim>\<open>Evolved\<close>) as it is, where the
  raw clean-up pass of \<^verbatim>\<open>cleanProductName\<close> gives \<^verbatim>\<open>Paldea Evolved ETB\<close>. Its em-dash
  pattern is the mis-encoded three-character sequence: it keeps the em dash of the query
  \<^verbatim>\<open>151\<close>, em dash, \<^verbatim>\<open>ETB\<close>, which \<^verbatim>\<open>cleanProductName\<close> replaces by a hyphen.
\<close>

theorem search_query_differs_from_raw_cleanup:
  "search_query (js ''Pokemon TCG: Paldea  Evolved ETB'') = js ''Pokemon TCG: Paldea  Evolved ETB''
   \<and> raw_cleanup (js ''Pokemon TCG: Paldea  Evolved ETB'') = js ''Paldea Evolved ETB''
   \<and> search_query (js ''151'' @ [8212] @ js ''ETB'') = js ''151'' @ [8212] @ js ''ETB''
   \<and> raw_cleanup (js ''151'' @ [8212] @ js ''ETB'') = js ''151-ETB''"
  by (simp add: normalizer_defs)


section \<open>The end-to-end normalization scenario\<close>

text \<open>
  Claim C4, as stated, gives \<^verbatim>\<open>Scarlet & Violet-151 Elite Trainer Box\<close> as the result of
  \<^verbatim>\<open>cleanProductName\<close> on \<^verbatim>\<open>pokemon tcg: scarlet & violet\<close>, em dash, \<^verbatim>\<open>151 etb\<close>. The
  code never changes the case of a character it keeps, so the result differs from that
  string.
\<close>

theorem cleanProductName_scenario_not_capitalised:
  "cleanProductName (js ''pokemon tcg: scarlet & violet'' @ [8212] @ js ''151 etb'')
     \<noteq> js ''Scarlet & Violet-151 Elite Trainer Box''"
  by (simp add: normalizer_defs)

text \<open>
  Claim C4, amended: on that input \<^verbatim>\<open>cleanProductName\<close> returns
  \<^verbatim>\<open>scarlet & violet-151 Elite Trainer Box\<close> (prefix stripped, em dash replaced by a
  hyphen, \<^verbatim>\<open>etb\<close> expanded, the case of the input kept), and the clean-up of
  \<^verbatim>\<open>searchProducts\<close> leaves this string as it is, so it is the string handed to the
  matcher by \<^verbatim>\<open>handleChannelMessage\<close>.
\<close>

theorem cleanProductName_scenario:
  "cleanProductName (js ''pokemon tcg: scarlet & violet'' @ [8212] @ js ''151 etb'')
     = js ''scarlet & violet-151 Elite Trainer Box''
   \<and> search_query
       (cleanProductName (js ''pokemon tcg: scarlet & violet'' @ [8212] @ js ''151 etb''))
     = js ''scarlet & violet-151 Elite Trainer Box''"
  by (simp add: normalizer_defs)


section \<open>Idempotence of the normalizer\<close>

subsection \<open>The raw clean-up returns a normal string and keeps one\<close>

lemma canonicalize_word: "is_word p \<Longrightarrow> canonicalize p = canonicalize c \<Longrightarrow> is_word c"
  by (auto simp: is_word_def canonicalize_def split: if_splits)

lemma is_space_32: "is_space 32"
  by (simp add: is_space_def)

lemma word_not_space: "is_word c \<Longrightarrow> \<not> is_space c"
  by (auto simp: is_word_def is_space_def)

lemma replace_all_single_absent:
  "a \<noteq> b \<Longrightarrow> a \<notin> set (replace_all [a] [b] s)"
  by (induction s) auto

lemma replace_all_single_id:
  "a \<notin> set s \<Longrightarrow> replace_all [a] [b] s = s"
  by (induction s) auto

lemma set_collapse_spaces: "set (collapse_spaces s) \<subseteq> insert 32 (set s)"
proof (induction s rule: collapse_spaces.induct)
  case 1
  then show ?case by simp
next
  case (2 c cs)
  show ?case
  proof (cases "is_space c")
    case True
    with 2 have "set (collapse_spaces (dropWhile is_space cs)) \<subseteq> insert 32 (set (dropWhile is_space cs))"
      by simp
    moreover have "set (dropWhile is_space cs) \<subseteq> set cs"
      by (rule set_dropWhileD [THEN subsetI])
    ultimately show ?thesis using True by auto
  next
    case False
    with 2 show ?thesis by auto
  qed
qed

lemma set_trimEnd: "set (trimEnd s) \<subseteq> set s"
  by (induction s) (auto simp: Let_def)

lemma set_trim: "set (trim s) \<subseteq> set s"
  unfolding trim_def using set_trimEnd set_dropWhileD by fastforce

lemma spaced_collapse_spaces:
  "(b \<Longrightarrow> s = [] \<or> \<not> is_space (hd s)) \<Longrightarrow> spaced b (collapse_spaces s)"
proof (induction s arbitrary: b rule: collapse_spaces.induct)
  case 1
  then show ?case by simp
next
  case (2 c cs)
  show ?case
  proof (cases "is_space c")
    case True
    have "dropWhile is_space cs = [] \<or> \<not> is_space (hd (dropWhile is_space cs))"
      using hd_dropWhile by blast
    then have "spaced True (collapse_spaces (dropWhile is_space cs))"
      using "2.IH"(1) [OF True] by blast
    with True "2.prems" show ?thesis by (auto simp: is_space_32)
  next
    case False
    then show ?thesis using "2.IH"(2) [of False] by simp
  qed
qed

lemma spaced_dropWhile: "spaced b s \<Longrightarrow> spaced True (dropWhile is_space s)"
  by (induction s arbitrary: b) (auto split: if_splits)

lemma spaced_trimEnd: "spaced b s \<Longrightarrow> spaced b (trimEnd s)"
  by (induction s arbitrary: b) (auto simp: Let_def split: if_splits)

lemma trimEnd_idem: "trimEnd (trimEnd s) = trimEnd s"
  by (induction s) (auto simp: Let_def)

lemma normal_raw_cleanup: "normal (raw_cleanup x)"
proof -
  define z where "z = replace_all [8212] (js ''-'')
       (strip_prefix_ci (js ''PTCG:'')
         (strip_prefix_ci (js ''Pokemon TCG:'')
           (strip_prefix_ci (js ''Pokemon Trading Card Game:'')
             (strip_prefix_ci (js ''Pok'' @ [233] @ js ''mon Trading Card Game:'') x))))"
  have raw: "raw_cleanup x = trim (collapse_spaces z)"
    by (simp add: raw_cleanup_def z_def)
  have "8212 \<notin> set z"
    unfolding z_def by (simp add: js_def replace_all_single_absent)
  then have "8212 \<notin> set (collapse_spaces z)"
    using set_collapse_spaces [of z] by auto
  then have "8212 \<notin> set (trim (collapse_spaces z))"
    using set_trim [of "collapse_spaces z"] by auto
  moreover have "spaced False (collapse_spaces z)"
    by (rule spaced_collapse_spaces) simp
  then have "spaced True (trim (collapse_spaces z))"
    unfolding trim_def by (intro spaced_trimEnd spaced_dropWhile)
  moreover have "trimEnd (trim (collapse_spaces z)) = trim (collapse_spaces z)"
    by (simp add: trim_def trimEnd_idem)
  ultimately show ?thesis
    by (simp add: normal_def raw)
qed

lemma spaced_True_dropWhile: "spaced True s \<Longrightarrow> dropWhile is_space s = s"
  by (cases s) (auto split: if_splits)

lemma spaced_collapse_id: "spaced b s \<Longrightarrow> collapse_spaces s = s"
proof (induction s arbitrary: b rule: collapse_spaces.induct)
  case 1
  then show ?case by simp
next
  case (2 c cs)
  show ?case
  proof (cases "is_space c")
    case True
    with "2.prems" have cs: "spaced True cs" and c: "c = 32" by auto
    then have "dropWhile is_space cs = cs" by (simp add: spaced_True_dropWhile)
    moreover from this have "collapse_spaces (dropWhile is_space cs) = dropWhile is_space cs"
      using "2.IH"(1) [OF True, of True] cs by simp
    ultimately show ?thesis using True c by simp
  next
    case False
    with "2.prems" have "spaced False cs" by simp
    then show ?thesis using "2.IH"(2) [OF False] False by simp
  qed
qed

lemma normal_cleanup_id:
  assumes "normal s"
  shows "trim (collapse_spaces (replace_all [8212] (js ''-'') s)) = s"
proof -
  from assms have a: "8212 \<notin> set s" and b: "spaced True s" and c: "trimEnd s = s"
    by (simp_all add: normal_def)
  from a have "replace_all [8212] (js ''-'') s = s"
    by (simp add: js_def replace_all_single_id)
  moreover have "collapse_spaces s = s"
    using b by (rule spaced_collapse_id)
  moreover have "trim s = s"
    using b c by (simp add: trim_def spaced_True_dropWhile)
  ultimately show ?thesis by simp
qed

subsection \<open>The abbreviations and their expansions\<close>

lemma good_abbrs:
  "good_abbr (js ''upc'')" "good_abbr (js ''etb'')" "good_abbr (js ''bb'')"
  by (simp_all add: good_abbr_def js_def is_word_def)

lemma good_fulls:
  "good_full (js ''Ultra Premium Collection'')"
  "good_full (js ''Elite Trainer Box'')"
  "good_full (js ''Booster Box'')"
  by (simp_all add: good_full_def js_def is_word_def is_space_def)

lemma inert_upc:
  "inert (js ''upc'') (js ''Ultra Premium Collection'')"
  "inert (js ''upc'') (js ''Elite Trainer Box'')"
  "inert (js ''upc'') (js ''Booster Box'')"
  by (simp_all add: inert_def js_def matches_word_ci_def canonicalize_def)

lemma inert_etb:
  "inert (js ''etb'') (js ''Elite Trainer Box'')"
  "inert (js ''etb'') (js ''Booster Box'')"
  by (simp_all add: inert_def js_def matches_word_ci_def canonicalize_def)

lemma inert_bb:
  "inert (js ''bb'') (js ''Booster Box'')"
  by (simp_all add: inert_def js_def matches_word_ci_def canonicalize_def)

subsection \<open>A replacement creates no new match\<close>

lemma matches_ci_words:
  "matches_ci abbr s \<Longrightarrow> list_all is_word abbr
     \<Longrightarrow> length abbr \<le> length s \<and> list_all is_word (take (length abbr) s)"
  by (induction abbr s rule: matches_ci.induct) (auto dest: canonicalize_word)

lemma matches_word_ci_class:
  "is_word_opt p = is_word_opt p' \<Longrightarrow> matches_word_ci p a s = matches_word_ci p' a s"
  by (simp add: matches_word_ci_def word_boundary_def)

lemma no_hit_class: "is_word_opt p = is_word_opt p' \<Longrightarrow> no_hit a p s = no_hit a p' s"
  by (cases s) (simp_all add: matches_word_ci_class [of p p'])

lemma no_hit_id: "no_hit a prev s \<Longrightarrow> replace_word_ci prev a full s = s"
  by (induction s arbitrary: prev) auto

lemma no_hit_drop:
  "no_hit a prev s \<Longrightarrow> 0 < n \<Longrightarrow> n \<le> length s
     \<Longrightarrow> no_hit a (Some (s ! (n - 1))) (drop n s)"
proof (induction s arbitrary: prev n)
  case Nil
  then show ?case by simp
next
  case (Cons c cs)
  show ?case
  proof (cases n)
    case 0
    with Cons.prems show ?thesis by simp
  next
    case (Suc m)
    show ?thesis
    proof (cases m)
      case 0
      with Suc Cons.prems show ?thesis by simp
    next
      case (Suc k)
      have "no_hit a (Some (cs ! (m - 1))) (drop m cs)"
        using Cons.IH [of "Some c" m] Cons.prems \<open>n = Suc m\<close> Suc by simp
      then show ?thesis
        using \<open>n = Suc m\<close> Suc by simp
    qed
  qed
qed

lemma match_end_eq:
  "match_end ps c cs
     = (matches_ci ps cs
        \<and> word_boundary (Some ((c # cs) ! length ps)) (head (drop (length ps) cs)))"
proof (induction ps arbitrary: c cs)
  case Nil
  then show ?case by simp
next
  case (Cons p ps)
  show ?case
    by (cases cs) (simp_all add: Cons.IH)
qed

lemma matches_word_ci_Cons:
  "matches_word_ci prev (p # ps) (c # cs)
     = (word_boundary prev (Some c) \<and> canonicalize p = canonicalize c \<and> match_end ps c cs)"
  by (auto simp: matches_word_ci_def match_end_eq head_def)

lemma nonword_no_match:
  "\<not> is_word c \<Longrightarrow> good_abbr a \<Longrightarrow> \<not> matches_word_ci prev a (c # cs)"
  by (cases a) (auto simp: good_abbr_def matches_word_ci_Cons dest: canonicalize_word)

lemma inword_no_match:
  "is_word_opt prev \<Longrightarrow> is_word c \<Longrightarrow> \<not> matches_word_ci prev a (c # cs)"
  by (simp add: matches_word_ci_def word_boundary_def head_def is_word_opt_def)

lemma match_end_agree:
  "list_all is_word ps \<Longrightarrow> list_all is_word U \<Longrightarrow> heads_agree Z Z'
     \<Longrightarrow> match_end ps l (U @ Z) = match_end ps l (U @ Z')"
proof (induction U arbitrary: ps l)
  case Nil
  then show ?case
    by (cases ps) (auto simp: heads_agree_def head_def dest: canonicalize_word)
next
  case (Cons u U)
  then show ?case
    by (cases ps) (auto simp: head_def)
qed

lemma replace_word_ci_in_word:
  "is_word_opt prev \<Longrightarrow>
     \<exists>p'. is_word_opt p'
        \<and> replace_word_ci prev abbr full s
            = takeWhile is_word s @ replace_word_ci p' abbr full (dropWhile is_word s)"
proof (induction s arbitrary: prev)
  case Nil
  then show ?case by auto
next
  case (Cons c cs)
  show ?case
  proof (cases "is_word c")
    case True
    then have "is_word_opt (Some c)" by (simp add: is_word_opt_def)
    from Cons.IH [OF this] obtain p' where "is_word_opt p'"
      "replace_word_ci (Some c) abbr full cs
         = takeWhile is_word cs @ replace_word_ci p' abbr full (dropWhile is_word cs)"
      by blast
    with True inword_no_match [OF Cons.prems True] show ?thesis by auto
  next
    case False
    with Cons.prems show ?thesis by auto
  qed
qed

lemma replace_word_ci_nonword:
  "\<not> is_word r \<Longrightarrow> good_abbr abbr
     \<Longrightarrow> replace_word_ci p abbr full (r # z) = r # replace_word_ci (Some r) abbr full z"
  by (simp add: nonword_no_match)

lemma match_transfer:
  assumes "good_abbr a" and "good_abbr abbr"
    and "matches_word_ci prev a (c # replace_word_ci (Some c) abbr full cs)"
  shows "matches_word_ci prev a (c # cs)"
proof (cases "is_word c")
  case False
  with assms(1,3) show ?thesis
    using nonword_no_match by blast
next
  case True
  then have "is_word_opt (Some c)" by (simp add: is_word_opt_def)
  from replace_word_ci_in_word [OF this] obtain p' where
    out: "replace_word_ci (Some c) abbr full cs
            = takeWhile is_word cs @ replace_word_ci p' abbr full (dropWhile is_word cs)"
    by blast
  define U where "U = takeWhile is_word cs"
  define Z' where "Z' = dropWhile is_word cs"
  define Z where "Z = replace_word_ci p' abbr full Z'"
  have U: "list_all is_word U"
    unfolding U_def by (simp add: list_all_iff) (meson set_takeWhileD)
  have agree: "heads_agree Z Z'"
  proof (cases Z')
    case Nil
    then show ?thesis by (simp add: heads_agree_def Z_def)
  next
    case (Cons r z)
    then have "\<not> is_word r"
      using hd_dropWhile [of is_word cs] by (simp add: Z'_def)
    then show ?thesis
      using Cons assms(2)
      by (simp add: heads_agree_def Z_def replace_word_ci_nonword del: replace_word_ci.simps)
  qed
  obtain p ps where a: "a = p # ps" and ps: "list_all is_word ps"
    using assms(1) by (cases a) (auto simp: good_abbr_def)
  have "match_end ps c (U @ Z) = match_end ps c (U @ Z')"
    using ps U agree by (rule match_end_agree)
  moreover have "U @ Z' = cs"
    by (simp add: U_def Z'_def)
  moreover have "replace_word_ci (Some c) abbr full cs = U @ Z"
    by (simp add: out U_def Z_def Z'_def)
  ultimately show ?thesis
    using assms(3) by (simp add: a matches_word_ci_Cons)
qed

lemma no_hit_replace_word_ci:
  assumes "good_abbr a" and "good_abbr abbr" and "good_full full" and "inert a full"
  shows "a = abbr \<or> no_hit a prev s \<Longrightarrow> no_hit a prev (replace_word_ci prev abbr full s)"
  using assms
proof (induction prev abbr full s rule: replace_word_ci.induct)
  case (1 prev abbr full)
  then show ?case by simp
next
  case (2 prev abbr full c cs)
  let ?s = "c # cs"
  let ?n = "length abbr"
  show ?case
  proof (cases "abbr \<noteq> [] \<and> matches_word_ci prev abbr ?s")
    case True
    define w where "w = ?s ! (?n - 1)"
    define R where "R = replace_word_ci (Some w) abbr full (drop ?n ?s)"
    have out: "replace_word_ci prev abbr full ?s = full @ R"
      using True by (simp add: R_def w_def)
    have abbr: "abbr \<noteq> []" "list_all is_word abbr"
      using "2.prems"(3) by (simp_all add: good_abbr_def)
    have m: "matches_ci abbr ?s"
      using True by (simp add: matches_word_ci_def)
    from matches_ci_words [OF m abbr(2)]
    have len: "?n \<le> length ?s" and words: "list_all is_word (take ?n ?s)"
      by simp_all
    have "w \<in> set (take ?n ?s)"
      unfolding w_def using len abbr(1)
      by (metis diff_less in_set_conv_nth length_greater_0_conv length_take less_numeral_extra(1)
            min.absorb2 nth_take)
    then have w: "is_word w"
      using words by (simp add: list_all_iff)
    have "a = abbr \<or> no_hit a (Some w) (drop ?n ?s)"
      using "2.prems"(1) no_hit_drop [of a prev ?s ?n] len abbr(1) by (auto simp: w_def)
    then have "no_hit a (Some w) R"
      unfolding R_def w_def using "2.IH"(1) [OF True] "2.prems"(2-5) by blast
    moreover have "is_word_opt (Some w) = is_word_opt (Some (last full))"
      using w "2.prems"(4) by (simp add: is_word_opt_def good_full_def)
    ultimately have "no_hit a (Some (last full)) R"
      using no_hit_class by blast
    then show ?thesis
      unfolding out using "2.prems"(5) by (simp add: inert_def)
  next
    case False
    define R where "R = replace_word_ci (Some c) abbr full cs"
    have out: "replace_word_ci prev abbr full ?s = c # R"
      using False by (auto simp: R_def)
    have abbr: "abbr \<noteq> []"
      using "2.prems"(3) by (simp add: good_abbr_def)
    have nm: "\<not> matches_word_ci prev a ?s"
      using "2.prems"(1) False abbr by auto
    have "\<not> matches_word_ci prev a (c # R)"
      unfolding R_def using match_transfer [OF "2.prems"(2,3)] nm by blast
    moreover have "a = abbr \<or> no_hit a (Some c) cs"
      using "2.prems"(1) by auto
    then have "no_hit a (Some c) R"
      unfolding R_def using "2.IH"(2) [OF False] "2.prems"(2-5) by blast
    ultimately show ?thesis
      unfolding out by simp
  qed
qed

subsection \<open>A replacement keeps a normal string normal\<close>

lemma set_replace_word_ci:
  "set (replace_word_ci prev abbr full s) \<subseteq> set s \<union> set full"
proof (induction prev abbr full s rule: replace_word_ci.induct)
  case (1 prev abbr full)
  then show ?case by simp
next
  case (2 prev abbr full c cs)
  show ?case
  proof (cases "abbr \<noteq> [] \<and> matches_word_ci prev abbr (c # cs)")
    case True
    have "set (drop (length abbr) (c # cs)) \<subseteq> set (c # cs)"
      by (rule set_drop_subset)
    with "2.IH"(1) [OF True] True show ?thesis by auto
  next
    case False
    with "2.IH"(2) [OF False] show ?thesis by auto
  qed
qed

lemma replace_word_ci_Nil_iff:
  "full \<noteq> [] \<Longrightarrow> replace_word_ci prev abbr full s = [] \<longleftrightarrow> s = []"
  by (cases s) auto

lemma spaced_drop_match:
  "matches_ci ps s \<Longrightarrow> list_all is_word ps \<Longrightarrow> spaced b s
     \<Longrightarrow> spaced (if ps = [] then b else False) (drop (length ps) s)"
proof (induction ps s arbitrary: b rule: matches_ci.induct)
  case (1 s)
  then show ?case by simp
next
  case (2 p ps)
  then show ?case by simp
next
  case (3 p ps c cs)
  then have "is_word c"
    using canonicalize_word by auto
  then have "\<not> is_space c"
    by (rule word_not_space)
  with "3.prems" have "spaced False cs" by simp
  with "3.IH" [of False] "3.prems" have "spaced (if ps = [] then False else False) (drop (length ps) cs)"
    by simp
  then show ?case by simp
qed

lemma spaced_replace_word_ci:
  assumes "good_abbr abbr" and "good_full full"
  shows "spaced b s \<Longrightarrow> spaced b (replace_word_ci prev abbr full s)"
  using assms
proof (induction prev abbr full s arbitrary: b rule: replace_word_ci.induct)
  case (1 prev abbr full)
  then show ?case by simp
next
  case (2 prev abbr full c cs)
  show ?case
  proof (cases "abbr \<noteq> [] \<and> matches_word_ci prev abbr (c # cs)")
    case True
    then have m: "matches_ci abbr (c # cs)"
      by (simp add: matches_word_ci_def)
    have "spaced False (drop (length abbr) (c # cs))"
      using spaced_drop_match [OF m _ "2.prems"(1)] "2.prems"(2) True
      by (simp add: good_abbr_def)
    then have "spaced False (replace_word_ci (Some ((c # cs) ! (length abbr - 1))) abbr full
                    (drop (length abbr) (c # cs)))"
      using "2.IH"(1) [OF True] "2.prems"(2,3) by blast
    then show ?thesis
      using True "2.prems"(3) by (simp add: good_full_def)
  next
    case False
    have "spaced b' cs \<Longrightarrow> spaced b' (replace_word_ci (Some c) abbr full cs)" for b'
      using "2.IH"(2) [OF False] "2.prems"(2,3) by blast
    with "2.prems"(1) False show ?thesis
      by (auto split: if_splits)
  qed
qed

lemma trimEnd_id_iff: "trimEnd s = s \<longleftrightarrow> s = [] \<or> \<not> is_space (last s)"
proof (induction s)
  case Nil
  then show ?case by simp
next
  case (Cons c cs)
  show ?case
  proof (cases "cs = []")
    case True
    then show ?thesis by (auto simp: Let_def)
  next
    case False
    then have "trimEnd cs = cs \<Longrightarrow> trimEnd cs \<noteq> []" by simp
    with Cons False show ?thesis by (auto simp: Let_def)
  qed
qed

lemma last_replace_word_ci:
  assumes "good_abbr abbr" and "good_full full"
  shows "s \<noteq> [] \<Longrightarrow> \<not> is_space (last s)
           \<Longrightarrow> \<not> is_space (last (replace_word_ci prev abbr full s))"
  using assms
proof (induction prev abbr full s rule: replace_word_ci.induct)
  case (1 prev abbr full)
  then show ?case by simp
next
  case (2 prev abbr full c cs)
  have full: "full \<noteq> []" "\<not> is_space (last full)"
    using "2.prems"(4) by (simp_all add: good_full_def word_not_space)
  show ?case
  proof (cases "abbr \<noteq> [] \<and> matches_word_ci prev abbr (c # cs)")
    case True
    define rest where "rest = drop (length abbr) (c # cs)"
    define R where "R = replace_word_ci (Some ((c # cs) ! (length abbr - 1))) abbr full rest"
    have out: "replace_word_ci prev abbr full (c # cs) = full @ R"
      using True by (simp add: R_def rest_def)
    show ?thesis
    proof (cases "rest = []")
      case True
      then have "R = []" by (simp add: R_def)
      then show ?thesis unfolding out using full by simp
    next
      case False
      then have "last rest = last (c # cs)"
        unfolding rest_def by (metis drop_eq_Nil last_drop not_le)
      with "2.prems"(2) have "\<not> is_space (last rest)" by simp
      then have "\<not> is_space (last R)"
        unfolding R_def rest_def
        using "2.IH"(1) [OF True] False "2.prems"(3,4) rest_def by blast
      moreover have "R \<noteq> []"
        using False full(1) by (simp add: R_def replace_word_ci_Nil_iff)
      ultimately show ?thesis unfolding out by simp
    qed
  next
    case False
    define R where "R = replace_word_ci (Some c) abbr full cs"
    have out: "replace_word_ci prev abbr full (c # cs) = c # R"
      using False by (auto simp: R_def)
    show ?thesis
    proof (cases "cs = []")
      case True
      then have "R = []" by (simp add: R_def)
      with True "2.prems"(2) show ?thesis unfolding out by simp
    next
      case ne: False
      with "2.prems"(2) have "\<not> is_space (last cs)" by simp
      then have "\<not> is_space (last R)"
        unfolding R_def using "2.IH"(2) [OF False ne] "2.prems"(3,4) by blast
      moreover have "R \<noteq> []"
        using ne full(1) by (simp add: R_def replace_word_ci_Nil_iff)
      ultimately show ?thesis unfolding out by simp
    qed
  qed
qed

lemma normal_replace_word_ci:
  assumes "good_abbr abbr" and "good_full full" and "normal s"
  shows "normal (replace_word_ci prev abbr full s)"
proof -
  let ?out = "replace_word_ci prev abbr full s"
  from assms(3) have s: "8212 \<notin> set s" "spaced True s" "s = [] \<or> \<not> is_space (last s)"
    by (simp_all add: normal_def trimEnd_id_iff)
  have "8212 \<notin> set ?out"
    using set_replace_word_ci [of prev abbr full s] s(1) assms(2)
    by (auto simp: good_full_def)
  moreover have "spaced True ?out"
    using assms(1,2) s(2) by (rule spaced_replace_word_ci)
  moreover have "?out = [] \<or> \<not> is_space (last ?out)"
  proof (cases "s = []")
    case True
    then show ?thesis by simp
  next
    case False
    with s(3) last_replace_word_ci [OF assms(1,2) False] show ?thesis by blast
  qed
  ultimately show ?thesis
    by (simp add: normal_def trimEnd_id_iff)
qed

lemma expand_abbreviations_steps:
  "expand_abbreviations s =
     replace_word_ci None (js ''bb'') (js ''Booster Box'')
       (replace_word_ci None (js ''etb'') (js ''Elite Trainer Box'')
          (replace_word_ci None (js ''upc'') (js ''Ultra Premium Collection'') s))"
  by (simp add: expand_abbreviations_def ABBREVIATIONS_def)

lemma cleanProductName_fixed:
  assumes "normal y" and "\<not> starts_with_known_prefix y"
    and "no_hit (js ''upc'') None y" and "no_hit (js ''etb'') None y"
    and "no_hit (js ''bb'') None y"
  shows "cleanProductName y = y"
proof -
  from assms(2) have
    "\<not> matches_ci (js ''Pok'' @ [233] @ js ''mon Trading Card Game:'') y"
    "\<not> matches_ci (js ''Pokemon Trading Card Game:'') y"
    "\<not> matches_ci (js ''Pokemon TCG:'') y"
    "\<not> matches_ci (js ''PTCG:'') y"
    by (simp_all add: starts_with_known_prefix_def known_prefixes_def)
  then have strip:
    "strip_prefix_ci (js ''Pok'' @ [233] @ js ''mon Trading Card Game:'') y = y"
    "strip_prefix_ci (js ''Pokemon Trading Card Game:'') y = y"
    "strip_prefix_ci (js ''Pokemon TCG:'') y = y"
    "strip_prefix_ci (js ''PTCG:'') y = y"
    by (simp_all only: strip_prefix_ci_def if_False)
  have "raw_cleanup y = trim (collapse_spaces (replace_all [8212] (js ''-'') y))"
    unfolding raw_cleanup_def strip by (rule refl)
  then have "raw_cleanup y = y"
    using normal_cleanup_id [OF assms(1)] by simp
  moreover have "expand_abbreviations y = y"
    unfolding expand_abbreviations_steps
    by (simp only: no_hit_id [OF assms(3)] no_hit_id [OF assms(4)] no_hit_id [OF assms(5)])
  ultimately show ?thesis
    by (simp add: cleanProductName_def)
qed

lemma cleanProductName_image:
  "normal (cleanProductName x)
   \<and> no_hit (js ''upc'') None (cleanProductName x)
   \<and> no_hit (js ''etb'') None (cleanProductName x)
   \<and> no_hit (js ''bb'') None (cleanProductName x)"
proof -
  define r where "r = raw_cleanup x"
  define s1 where "s1 = replace_word_ci None (js ''upc'') (js ''Ultra Premium Collection'') r"
  define s2 where "s2 = replace_word_ci None (js ''etb'') (js ''Elite Trainer Box'') s1"
  define s3 where "s3 = replace_word_ci None (js ''bb'') (js ''Booster Box'') s2"
  have y: "cleanProductName x = s3"
    by (simp add: cleanProductName_def expand_abbreviations_steps s3_def s2_def s1_def r_def)
  have "normal r"
    unfolding r_def by (rule normal_raw_cleanup)
  then have "normal s1"
    unfolding s1_def by (intro normal_replace_word_ci good_abbrs good_fulls)
  then have "normal s2"
    unfolding s2_def by (intro normal_replace_word_ci good_abbrs good_fulls)
  then have n3: "normal s3"
    unfolding s3_def by (intro normal_replace_word_ci good_abbrs good_fulls)
  have "no_hit (js ''upc'') None s1"
    unfolding s1_def
    by (rule no_hit_replace_word_ci [OF good_abbrs(1) good_abbrs(1) good_fulls(1) inert_upc(1)])
       simp
  then have "no_hit (js ''upc'') None s2"
    unfolding s2_def
    by (intro no_hit_replace_word_ci [OF good_abbrs(1) good_abbrs(2) good_fulls(2) inert_upc(2)]
          disjI2)
  then have upc: "no_hit (js ''upc'') None s3"
    unfolding s3_def
    by (intro no_hit_replace_word_ci [OF good_abbrs(1) good_abbrs(3) good_fulls(3) inert_upc(3)]
          disjI2)
  have "no_hit (js ''etb'') None s2"
    unfolding s2_def
    by (rule no_hit_replace_word_ci [OF good_abbrs(2) good_abbrs(2) good_fulls(2) inert_etb(1)])
       simp
  then have etb: "no_hit (js ''etb'') None s3"
    unfolding s3_def
    by (intro no_hit_replace_word_ci [OF good_abbrs(2) good_abbrs(3) good_fulls(3) inert_etb(2)]
          disjI2)
  have bb: "no_hit (js ''bb'') None s3"
    unfolding s3_def
    by (rule no_hit_replace_word_ci [OF good_abbrs(3) good_abbrs(3) good_fulls(3) inert_bb])
       simp
  from n3 upc etb bb show ?thesis
    by (simp add: y)
qed

text \<open>
  Claim C3 as stated makes \<^verbatim>\<open>cleanProductName\<close> idempotent on every input. Each prefix
  pattern is applied once, at index 0, before the string is trimmed: for the input
  \<^verbatim>\<open> Pokemon TCG: Charizard ex UPC\<close> (with a leading space) the first application only
  trims the space and expands \<^verbatim>\<open>UPC\<close>, and the second one strips the prefix.
\<close>

theorem cleanProductName_not_idempotent:
  "cleanProductName (cleanProductName (js '' Pokemon TCG: Charizard ex UPC''))
     \<noteq> cleanProductName (js '' Pokemon TCG: Charizard ex UPC'')"
  by (simp add: normalizer_defs)

text \<open>
  Claim C3, amended: \<^verbatim>\<open>cleanProductName(cleanProductName(x)) == cleanProductName(x)\<close> for
  every input \<open>x\<close> whose normalized form \<^verbatim>\<open>cleanProductName(x)\<close> does not begin with one of
  the four known prefixes (ignoring case).
\<close>

theorem cleanProductName_idempotent:
  "\<not> starts_with_known_prefix (cleanProductName x)
     \<Longrightarrow> cleanProductName (cleanProductName x) = cleanProductName x"
  using cleanProductName_image [of x] by (intro cleanProductName_fixed) simp_all

text \<open>Witness of C3: an input with one prefix, runs of spaces and an abbreviation.\<close>

theorem cleanProductName_idempotent_witness:
  "\<not> starts_with_known_prefix (cleanProductName (js ''PTCG:  Charizard ex   UPC ''))
   \<and> cleanProductName (js ''PTCG:  Charizard ex   UPC '') = js ''Charizard ex Ultra Premium Collection''
   \<and> cleanProductName (cleanProductName (js ''PTCG:  Charizard ex   UPC ''))
       = cleanProductName (js ''PTCG:  Charizard ex   UPC '')"
proof -
  have val: "cleanProductName (js ''PTCG:  Charizard ex   UPC '')
                 = js ''Charizard ex Ultra Premium Collection''"
    by (simp add: normalizer_defs)
  have no_prefix: "\<not> starts_with_known_prefix (cleanProductName (js ''PTCG:  Charizard ex   UPC ''))"
    unfolding val
    by (simp add: starts_with_known_prefix_def known_prefixes_def js_def canonicalize_def)
  from cleanProductName_idempotent [OF no_prefix] no_prefix val show ?thesis
    by simp
qed


section \<open>Price formatting\<close>

lemma find_main_price:
  assumes "ps \<noteq> []"
  shows "is_main_price ps (case find (\<lambda>p. subTypeName p = js ''Normal'') ps of
                             Some p \<Rightarrow> p | None \<Rightarrow> ps ! 0)"
proof (cases "find (\<lambda>p. subTypeName p = js ''Normal'') ps")
  case None
  then have "\<forall>q \<in> set ps. subTypeName q \<noteq> js ''Normal''"
    by (auto simp: find_None_iff)
  with assms None show ?thesis
    by (simp add: is_main_price_def)
next
  case (Some m)
  then obtain i where "i < length ps" "ps ! i = m" "subTypeName m = js ''Normal''"
      "\<forall>j < i. subTypeName (ps ! j) \<noteq> js ''Normal''"
    by (auto simp: find_Some_iff)
  with Some show ?thesis
    unfolding is_main_price_def by auto
qed

lemma is_main_price_unique:
  assumes "is_main_price ps m" and "is_main_price ps m'"
  shows "m = m'"
proof -
  have first_unique: "i = i'"
    if "i < length ps" "i' < length ps"
       "subTypeName (ps ! i) = js ''Normal''" "subTypeName (ps ! i') = js ''Normal''"
       "\<forall>j < i. subTypeName (ps ! j) \<noteq> js ''Normal''"
       "\<forall>j < i'. subTypeName (ps ! j) \<noteq> js ''Normal''"
    for i i'
    using that by (meson linorder_neqE_nat)
  from assms show ?thesis
    unfolding is_main_price_def
    by (elim disjE exE conjE) (use first_unique nth_mem in \<open>blast+\<close>)
qed

lemma formatPrice_lines:
  assumes "prices p \<noteq> []"
  shows "formatPrice tf p =
           join (js '' | '')
             (price_lines tf (case find (\<lambda>q. subTypeName q = js ''Normal'') (prices p) of
                                Some q \<Rightarrow> q | None \<Rightarrow> prices p ! 0))"
  using assms
  by (simp add: formatPrice_def price_lines_def Let_def List.map_filter_simps
           split: option.splits)

text \<open>
  Claim C8: \<^verbatim>\<open>formatPrice\<close> returns the fixed string \<^verbatim>\<open>No price data available\<close> for a
  product without price records; otherwise it selects the main price (the first record
  with sub-type \<^verbatim>\<open>Normal\<close>, else the first record) and returns its non-null market, low,
  mid and high values, rendered in that order and joined by \<^verbatim>\<open> | \<close>.
\<close>

theorem formatPrice_spec:
  "(prices p = [] \<longrightarrow> formatPrice toFixed2 p = js ''No price data available'')
   \<and> (prices p \<noteq> [] \<longrightarrow>
        (\<exists>m. is_main_price (prices p) m
           \<and> formatPrice toFixed2 p = join (js '' | '') (price_lines toFixed2 m)))"
proof (intro conjI impI)
  assume "prices p = []"
  then show "formatPrice toFixed2 p = js ''No price data available''"
    by (simp add: formatPrice_def)
next
  assume ne: "prices p \<noteq> []"
  show "\<exists>m. is_main_price (prices p) m
           \<and> formatPrice toFixed2 p = join (js '' | '') (price_lines toFixed2 m)"
    using find_main_price [OF ne] formatPrice_lines [OF ne] by blast
qed

lemma sample_prices:
  "prices entry_booster = []"
  "prices entry_etb = [price_etb_foil, price_etb_normal]"
  "prices entry_all_null = [price_all_null]"
  "TCGProduct.productId entry_booster = 20"
  "TCGProduct.productId entry_etb = 10"
  by (simp_all add: entry_booster_def entry_etb_def entry_all_null_def TCGProduct.defs
        ProductWithPrice.defs product_etb_def product_booster_def)

lemma sample_main_price:
  "is_main_price [price_etb_foil, price_etb_normal] price_etb_normal"
  "is_main_price [price_all_null] price_all_null"
proof -
  have "(1::nat) < length [price_etb_foil, price_etb_normal]
        \<and> [price_etb_foil, price_etb_normal] ! 1 = price_etb_normal
        \<and> subTypeName price_etb_normal = js ''Normal''
        \<and> (\<forall>j < 1. subTypeName ([price_etb_foil, price_etb_normal] ! j) \<noteq> js ''Normal'')"
    by (simp add: price_etb_foil_def price_etb_normal_def js_def)
  then show "is_main_price [price_etb_foil, price_etb_normal] price_etb_normal"
    unfolding is_main_price_def by blast
  have "(0::nat) < length [price_all_null] \<and> [price_all_null] ! 0 = price_all_null
        \<and> subTypeName price_all_null = js ''Normal''
        \<and> (\<forall>j < 0. subTypeName ([price_all_null] ! j) \<noteq> js ''Normal'')"
    by (simp add: price_all_null_def)
  then show "is_main_price [price_all_null] price_all_null"
    unfolding is_main_price_def by blast
qed

text \<open>
  Witness of C8: a product without prices, and a product whose main price is its second
  record.
\<close>

theorem formatPrice_spec_witness:
  "prices entry_booster = []
   \<and> formatPrice sample_toFixed2 entry_booster = js ''No price data available''
   \<and> prices entry_etb \<noteq> []
   \<and> is_main_price (prices entry_etb) price_etb_normal
   \<and> formatPrice sample_toFixed2 entry_etb = js ''Market: $54.99 | Low: $49.50 | High: $80.00''"
proof -
  have none: "formatPrice sample_toFixed2 entry_booster = js ''No price data available''"
    using formatPrice_spec [of entry_booster sample_toFixed2] by (simp add: sample_prices)
  obtain m where m: "is_main_price (prices entry_etb) m"
      "formatPrice sample_toFixed2 entry_etb = join (js '' | '') (price_lines sample_toFixed2 m)"
    using formatPrice_spec [of entry_etb sample_toFixed2] by (auto simp: sample_prices)
  have main: "is_main_price (prices entry_etb) price_etb_normal"
    by (simp add: sample_prices sample_main_price)
  with m(1) have "m = price_etb_normal"
    by (rule is_main_price_unique)
  then have "formatPrice sample_toFixed2 entry_etb
               = join (js '' | '') (price_lines sample_toFixed2 price_etb_normal)"
    using m(2) by simp
  also have "\<dots> = js ''Market: $54.99 | Low: $49.50 | High: $80.00''"
    by (simp add: price_lines_def price_etb_normal_def sample_toFixed2_def js_def)
  finally show ?thesis
    using none main by (simp add: sample_prices)
qed

lemma join_price_lines_not_no_data:
  "join (js '' | '') (price_lines tf m) \<noteq> js ''No price data available''"
  by (cases "marketPrice m"; cases "lowPrice m"; cases "midPrice m"; cases "highPrice m")
     (simp_all add: price_lines_def List.map_filter_simps js_def)

text \<open>
  Claim C10: for a product with at least one price record whose main record has market,
  low, mid and high price all null, \<^verbatim>\<open>formatPrice\<close> returns the empty string; the string
  \<^verbatim>\<open>No price data available\<close> is returned for products without price records only.
\<close>

theorem formatPrice_all_null:
  assumes "prices p \<noteq> []" and "is_main_price (prices p) m"
    and "marketPrice m = None" and "lowPrice m = None"
    and "midPrice m = None" and "highPrice m = None"
  shows "formatPrice toFixed2 p = []
         \<and> (\<forall>q. formatPrice toFixed2 q = js ''No price data available'' \<longleftrightarrow> prices q = [])"
proof -
  obtain m' where m': "is_main_price (prices p) m'"
      "formatPrice toFixed2 p = join (js '' | '') (price_lines toFixed2 m')"
    using formatPrice_lines [OF assms(1)] find_main_price [OF assms(1)] by blast
  then have "m' = m"
    using assms(2) is_main_price_unique by blast
  with m' assms(3-6) have "formatPrice toFixed2 p = []"
    by (simp add: price_lines_def List.map_filter_simps)
  moreover have "formatPrice toFixed2 q = js ''No price data available'' \<longleftrightarrow> prices q = []" for q
  proof (cases "prices q = []")
    case True
    then show ?thesis by (simp add: formatPrice_def)
  next
    case False
    then show ?thesis
      using formatPrice_lines [OF False] join_price_lines_not_no_data by simp
  qed
  ultimately show ?thesis by blast
qed

text \<open>Witness of C10: a product with one price record, all of whose prices are null.\<close>

theorem formatPrice_all_null_witness:
  "prices entry_all_null \<noteq> []
   \<and> is_main_price (prices entry_all_null) price_all_null
   \<and> marketPrice price_all_null = None \<and> lowPrice price_all_null = None
   \<and> midPrice price_all_null = None \<and> highPrice price_all_null = None
   \<and> formatPrice sample_toFixed2 entry_all_null = []"
proof -
  have ne: "prices entry_all_null \<noteq> []"
    and main: "is_main_price (prices entry_all_null) price_all_null"
    by (simp_all add: sample_prices sample_main_price)
  have nulls: "marketPrice price_all_null = None" "lowPrice price_all_null = None"
      "midPrice price_all_null = None" "highPrice price_all_null = None"
    by (simp_all add: price_all_null_def)
  from formatPrice_all_null [OF ne main nulls, of sample_toFixed2]
  show ?thesis using ne main nulls by simp
qed


section \<open>Queries before the index is built\<close>

text \<open>
  Claim C9: while the fuzzy index is not built, \<^verbatim>\<open>searchProducts\<close> returns the empty list
  and writes the warning \<^verbatim>\<open>Product data not initialized\<close>. The function has no statement
  that throws, so its model has no error result.
\<close>

theorem searchProducts_not_initialized:
  "fuse this = None \<Longrightarrow>
     searchProducts score query limit this = ([], [Product_data_not_initialized], this)"
  by (simp add: searchProducts_def)

text \<open>Witness of C9: the exported instance before any call of \<^verbatim>\<open>initialize\<close>.\<close>

theorem searchProducts_not_initialized_witness:
  "fuse tcgplayerService = None
   \<and> searchProducts sample_score (js ''151 etb'') 5 tcgplayerService
       = ([], [Product_data_not_initialized], tcgplayerService)"
proof -
  have "fuse tcgplayerService = None"
    by (simp add: tcgplayerService_def)
  then show ?thesis
    using searchProducts_not_initialized [of tcgplayerService sample_score "js ''151 etb''" 5]
    by simp
qed


section \<open>The recent groups\<close>

lemma sort_insert_insort_key:
  assumes "\<forall>y \<in> set ys. cmp x y \<le> 0 \<longleftrightarrow> key x \<le> key y"
  shows "sort_insert cmp x ys = insort_key key x ys"
  using assms by (induction ys) auto

lemma js_sort_sort_key:
  assumes "\<forall>x \<in> set xs. \<forall>y \<in> set xs. cmp x y \<le> 0 \<longleftrightarrow> key x \<le> key y"
  shows "js_sort cmp xs = sort_key key xs"
  using assms
proof (induction xs)
  case Nil
  then show ?case by (simp add: js_sort_def)
next
  case (Cons x xs)
  then have "js_sort cmp xs = sort_key key xs" by simp
  moreover have "sort_insert cmp x (sort_key key xs) = insort_key key x (sort_key key xs)"
    using Cons.prems by (intro sort_insert_insort_key) simp
  ultimately show ?case by (simp add: js_sort_def)
qed

lemma filter_recent_published:
  "g \<in> set (filter_recent env k gs) \<Longrightarrow> \<exists>t. published env g = Some t"
  by (induction gs arbitrary: k)
     (auto simp: is_recent_def published_def split: if_splits option.splits)

lemma filter_recent_index:
  "filter_recent env k gs =
     map (\<lambda>i. gs ! i) [i \<leftarrow> [0..<length gs]. is_recent env (k + i) (gs ! i)]"
proof (induction gs arbitrary: k)
  case Nil
  then show ?case by simp
next
  case (Cons g gs)
  have upt: "[0..<length (g # gs)] = 0 # map Suc [0..<length gs]"
    by (simp add: upt_conv_Cons map_Suc_upt del: upt_Suc)
  show ?case
    unfolding upt by (simp add: Cons.IH [of "Suc k"] filter_map comp_def)
qed

lemma oneYearAgo_two_calendar_years:
  "oneYearAgo env tv = two_calendar_years_before env tv"
  unfolding oneYearAgo_def two_calendar_years_before_def Let_def
  by (simp add: split_beta)

lemma recentGroups_sort_key:
  "recentGroups env groups = sort_key (neg_time env) (filter_recent env 0 groups)"
  unfolding recentGroups_def
proof (rule js_sort_sort_key, intro ballI)
  fix x y
  assume "x \<in> set (filter_recent env 0 groups)" "y \<in> set (filter_recent env 0 groups)"
  then obtain tx ty where "published env x = Some tx" "published env y = Some ty"
    using filter_recent_published by blast
  then show "by_publishedOn_desc env x y \<le> 0 \<longleftrightarrow> neg_time env x \<le> neg_time env y"
    by (simp add: by_publishedOn_desc_def neg_time_def published_def)
qed

text \<open>
  Claim C6, amended: the rebuild retains exactly the groups whose \<^verbatim>\<open>publishedOn\<close> is a
  valid date strictly later than the instant two calendar years before the clock reading
  of the filter (a date in the future included, a date exactly at that instant not), each
  as often as it was fetched; it processes them most recently published first, and
  groups published at the same time keep their fetch order.
\<close>

theorem recentGroups_spec:
  "(let retained = map (\<lambda>k. groups ! k)
                     [k \<leftarrow> [0..<length groups].
                        \<exists>t. published env (groups ! k) = Some t
                           \<and> two_calendar_years_before env (new_Date env k) < t]
    in mset (recentGroups env groups) = mset retained
       \<and> sorted_wrt (\<lambda>a b. \<exists>ta tb. published env a = Some ta \<and> published env b = Some tb
                                    \<and> tb \<le> ta)
           (recentGroups env groups)
       \<and> (\<forall>t. [g \<leftarrow> recentGroups env groups. published env g = Some t]
              = [g \<leftarrow> retained. published env g = Some t]))"
proof -
  define retained where "retained = map (\<lambda>k. groups ! k)
                     [k \<leftarrow> [0..<length groups].
                        \<exists>t. published env (groups ! k) = Some t
                           \<and> two_calendar_years_before env (new_Date env k) < t]"
  have recent_iff: "is_recent env k g
      \<longleftrightarrow> (\<exists>t. published env g = Some t
             \<and> two_calendar_years_before env (new_Date env k) < t)" for k g
    by (auto simp: is_recent_def published_def oneYearAgo_two_calendar_years
          split: option.splits)
  have retained: "filter_recent env 0 groups = retained"
    by (simp add: filter_recent_index retained_def recent_iff)
  have valid: "\<exists>t. published env g = Some t" if "g \<in> set retained" for g
    using that filter_recent_published retained by metis
  have rg: "recentGroups env groups = sort_key (neg_time env) retained"
    by (simp add: recentGroups_sort_key retained)

  have "mset (recentGroups env groups) = mset retained"
    by (simp add: rg)
  moreover have "sorted_wrt (\<lambda>a b. \<exists>ta tb. published env a = Some ta \<and> published env b = Some tb
                                    \<and> tb \<le> ta) (recentGroups env groups)"
  proof -
    have "sorted (map (neg_time env) (recentGroups env groups))"
      by (simp add: rg)
    then have "sorted_wrt (\<lambda>a b. neg_time env a \<le> neg_time env b) (recentGroups env groups)"
      by (simp add: sorted_map)
    moreover have "set (recentGroups env groups) = set retained"
      by (simp add: rg)
    ultimately show ?thesis
    proof (elim sorted_wrt_mono_rel [rotated])
      fix x y
      assume "x \<in> set (recentGroups env groups)" "y \<in> set (recentGroups env groups)"
        and le: "neg_time env x \<le> neg_time env y"
        and "set (recentGroups env groups) = set retained"
      then obtain tx ty where "published env x = Some tx" "published env y = Some ty"
        using valid by metis
      with le show "\<exists>ta tb. published env x = Some ta \<and> published env y = Some tb \<and> tb \<le> ta"
        by (simp add: neg_time_def)
    qed
  qed
  moreover have "[g \<leftarrow> recentGroups env groups. published env g = Some t]
                   = [g \<leftarrow> retained. published env g = Some t]" for t
  proof -
    have eq: "(published env g = Some t) = (neg_time env g = - t \<and> g \<in> set retained)"
      if "g \<in> set retained" for g
      using valid [OF that] that by (auto simp: neg_time_def)
    have "[g \<leftarrow> sort_key (neg_time env) retained. published env g = Some t]
            = [g \<leftarrow> sort_key (neg_time env) retained. neg_time env g = - t]"
      by (rule filter_cong) (use eq in auto)
    also have "\<dots> = [g \<leftarrow> retained. neg_time env g = - t]"
      by (rule sort_key_stable)
    also have "\<dots> = [g \<leftarrow> retained. published env g = Some t]"
      by (rule filter_cong) (use eq in auto)
    finally show ?thesis by (simp add: rg)
  qed
  ultimately show ?thesis
    unfolding Let_def retained_def [symmetric] by blast
qed

lemma sample_dates:
  "sample_now = 1793664000000"
  "MakeDay 2026 10 3 * msPerDay = 1793664000000"
  "MakeDay 2026 9 3 * msPerDay = 1790985600000"
  "MakeDay 2023 10 3 * msPerDay = 1698969600000"
  "MakeDay 2027 0 15 * msPerDay = 1799971200000"
  "MakeDay 2026 5 1 * msPerDay = 1780272000000"
  "MakeDay 2024 10 3 * msPerDay = 1730592000000"
  "MakeDay 2024 1 29 * msPerDay = 1709164800000"
  "MakeDay 2022 2 1 * msPerDay = 1646092800000"
  unfolding sample_now_def MakeDay_def msPerDay_def Let_def by simp_all

lemma sample_env_simps:
  "fetchGroups sample_env
     = Inr [group_last_month, group_three_years_ago, group_upcoming, group_failing]"
  "fetchProducts sample_env gid
     = (if gid = 1 then Inr [product_etb] else if gid = 3 then Inr [product_booster]
        else Inl (HttpError 500))"
  "fetchPrices sample_env gid
     = (if gid = 1 then Inr [price_etb_foil, price_etb_normal]
        else if gid = 4 then Inl NetworkError else Inr [])"
  "new_Date sample_env k = 1793664001000"
  "LocalTZA sample_env t isUTC = 0"
  by (simp_all add: sample_env_def sample_dates)

lemma sample_published:
  "published sample_env group_last_month = Some 1790985600000"
  "published sample_env group_three_years_ago = Some 1698969600000"
  "published sample_env group_upcoming = Some 1799971200000"
  "published sample_env group_failing = Some 1780272000000"
  "published sample_env group_at_cutoff = Some 1730592001000"
  "published sample_env group_after_cutoff = Some 1730592001001"
  by (simp_all add: published_def sample_env_def sample_dates js_def
        group_last_month_def group_three_years_ago_def group_upcoming_def group_failing_def
        group_at_cutoff_def group_after_cutoff_def)

lemma sample_cutoff: "oneYearAgo sample_env 1793664001000 = 1730592001000"
  unfolding oneYearAgo_def sample_env_simps civil_from_days_def MakeDay_def Day_def
    TimeWithinDay_def msPerDay_def Let_def
  by simp

lemma sample_leap_day: "oneYearAgo sample_env 1709164800000 = 1646092800000"
  unfolding oneYearAgo_def sample_env_simps civil_from_days_def MakeDay_def Day_def
    TimeWithinDay_def msPerDay_def Let_def
  by simp

lemma sample_is_recent:
  "is_recent sample_env k group_last_month"
  "\<not> is_recent sample_env k group_three_years_ago"
  "is_recent sample_env k group_upcoming"
  "is_recent sample_env k group_failing"
  "\<not> is_recent sample_env k group_at_cutoff"
  "is_recent sample_env k group_after_cutoff"
  using sample_published
  by (simp_all add: is_recent_def published_def sample_env_simps sample_cutoff)

lemma by_publishedOn_desc_valid:
  "published env a = Some ta \<Longrightarrow> published env b = Some tb
     \<Longrightarrow> by_publishedOn_desc env a b = tb - ta"
  by (simp add: by_publishedOn_desc_def published_def)

lemma sample_order:
  "by_publishedOn_desc sample_env group_upcoming group_failing = - 19699200000"
  "by_publishedOn_desc sample_env group_last_month group_upcoming = 8985600000"
  "by_publishedOn_desc sample_env group_last_month group_failing = - 10713600000"
  "by_publishedOn_desc sample_env group_after_cutoff group_last_month = 60393598999"
  by (simp_all add: by_publishedOn_desc_valid [OF sample_published(3) sample_published(4)]
        by_publishedOn_desc_valid [OF sample_published(1) sample_published(3)]
        by_publishedOn_desc_valid [OF sample_published(1) sample_published(4)]
        by_publishedOn_desc_valid [OF sample_published(6) sample_published(1)])

lemma sample_recentGroups:
  "recentGroups sample_env [group_last_month, group_three_years_ago, group_upcoming, group_failing]
     = [group_upcoming, group_last_month, group_failing]"
  by (simp add: recentGroups_def js_sort_def sample_is_recent sample_order)

text \<open>
  Claim C6 as stated retains only groups published within the last two years. The code
  has no upper bound: a group dated two months after the clock reading is retained.
\<close>

theorem recentGroups_retains_future_group:
  "published sample_env group_upcoming = Some (MakeDay 2027 0 15 * msPerDay)
   \<and> new_Date sample_env 0 = MakeDay 2026 10 3 * msPerDay + 1000
   \<and> new_Date sample_env 0 < MakeDay 2027 0 15 * msPerDay
   \<and> recentGroups sample_env [group_upcoming] = [group_upcoming]"
  by (simp add: sample_published sample_env_simps sample_dates recentGroups_def js_sort_def
        sample_is_recent)

text \<open>
  Witness of C6. The scenario of the claim: of a group published last month and a group
  published three years ago, only the first is retained. The cutoff: at the clock reading
  2026-11-03T00:00:01 it is 2024-11-03T00:00:01; a group published at that instant is
  dropped, a group published one millisecond later is retained. Two calendar years
  before 2024-02-29 is 2022-03-01.
\<close>

theorem recentGroups_spec_witness:
  "published sample_env group_last_month = Some (MakeDay 2026 9 3 * msPerDay)
   \<and> published sample_env group_three_years_ago = Some (MakeDay 2023 10 3 * msPerDay)
   \<and> published sample_env group_at_cutoff = Some (MakeDay 2024 10 3 * msPerDay + 1000)
   \<and> published sample_env group_after_cutoff = Some (MakeDay 2024 10 3 * msPerDay + 1001)
   \<and> new_Date sample_env 0 = MakeDay 2026 10 3 * msPerDay + 1000
   \<and> two_calendar_years_before sample_env (MakeDay 2026 10 3 * msPerDay + 1000)
       = MakeDay 2024 10 3 * msPerDay + 1000
   \<and> two_calendar_years_before sample_env (MakeDay 2024 1 29 * msPerDay)
       = MakeDay 2022 2 1 * msPerDay
   \<and> recentGroups sample_env [group_last_month, group_three_years_ago] = [group_last_month]
   \<and> mset (recentGroups sample_env
               [group_at_cutoff, group_after_cutoff, group_three_years_ago, group_last_month])
       = mset [group_after_cutoff, group_last_month]
   \<and> recentGroups sample_env
         [group_at_cutoff, group_after_cutoff, group_three_years_ago, group_last_month]
       = [group_last_month, group_after_cutoff]"
proof -
  have cutoff: "two_calendar_years_before sample_env 1793664001000 = 1730592001000"
    "two_calendar_years_before sample_env 1709164800000 = 1646092800000"
    using sample_cutoff sample_leap_day by (simp_all add: oneYearAgo_two_calendar_years)
  have "mset (recentGroups sample_env [group_last_month, group_three_years_ago])
          = mset [group_last_month]"
    using recentGroups_spec [where env = sample_env
                                and groups = "[group_last_month, group_three_years_ago]"]
    by (simp add: Let_def sample_published sample_env_simps cutoff)
  then have scenario:
    "recentGroups sample_env [group_last_month, group_three_years_ago] = [group_last_month]"
    by simp
  have boundary_set: "mset (recentGroups sample_env
               [group_at_cutoff, group_after_cutoff, group_three_years_ago, group_last_month])
       = mset [group_after_cutoff, group_last_month]"
    using recentGroups_spec [where env = sample_env
            and groups = "[group_at_cutoff, group_after_cutoff, group_three_years_ago,
                           group_last_month]"]
    by (simp add: Let_def sample_published sample_env_simps cutoff)
  have boundary: "recentGroups sample_env
         [group_at_cutoff, group_after_cutoff, group_three_years_ago, group_last_month]
       = [group_last_month, group_after_cutoff]"
    by (simp add: recentGroups_def js_sort_def sample_is_recent sample_order)
  from scenario boundary_set boundary cutoff show ?thesis
    by (simp add: sample_published sample_env_simps sample_dates)
qed


section \<open>The rebuild\<close>

lemma add_price_apply:
  "add_price p m pid =
     (if pid = TCGPrice.productId p
      then Some ((case m pid of Some e \<Rightarrow> e | None \<Rightarrow> []) @ [p])
      else m pid)"
  by (simp add: add_price_def Let_def)

lemma fold_add_price:
  "fold add_price ps m pid
   = (case [p \<leftarrow> ps. TCGPrice.productId p = pid] of
        [] \<Rightarrow> m pid
      | x # xs \<Rightarrow> Some ((case m pid of Some e \<Rightarrow> e | None \<Rightarrow> []) @ x # xs))"
proof (induction ps arbitrary: m)
  case Nil
  then show ?case by simp
next
  case (Cons p ps)
  have "fold add_price (p # ps) m pid = fold add_price ps (add_price p m) pid"
    by simp
  also have "\<dots> = (case [q \<leftarrow> ps. TCGPrice.productId q = pid] of
        [] \<Rightarrow> add_price p m pid
      | x # xs \<Rightarrow> Some ((case add_price p m pid of Some e \<Rightarrow> e | None \<Rightarrow> []) @ x # xs))"
    by (rule Cons.IH)
  also have "\<dots> = (case [q \<leftarrow> p # ps. TCGPrice.productId q = pid] of
        [] \<Rightarrow> m pid
      | x # xs \<Rightarrow> Some ((case m pid of Some e \<Rightarrow> e | None \<Rightarrow> []) @ x # xs))"
    by (simp add: add_price_apply split: list.splits option.splits)
  finally show ?case .
qed

lemma priceMap_of_apply:
  "(case priceMap_of ps pid of Some e \<Rightarrow> e | None \<Rightarrow> [])
     = [p \<leftarrow> ps. TCGPrice.productId p = pid]"
  unfolding priceMap_of_def fold_add_price by (simp split: list.splits)

lemma with_prices_extend:
  "with_prices (priceMap_of ps) g p =
     TCGProduct.extend p
       (ProductWithPrice.fields [pr \<leftarrow> ps. TCGPrice.productId pr = TCGProduct.productId p]
          (TCGGroup.name g))"
  by (simp add: with_prices_def priceMap_of_apply TCGProduct.defs ProductWithPrice.defs)

lemma process_group_snapshot:
  "allProductsWithPrices (fst (process_group env g (this, out)))
     = allProductsWithPrices this @ entries_of env g"
  by (simp add: process_group_def entries_of_def with_prices_extend Let_def
           split: sum.splits)

lemma process_group_fields:
  "fuse (fst (process_group env g (this, out))) = fuse this"
  "lastFetchTime (fst (process_group env g (this, out))) = lastFetchTime this"
  "cacheValidityMs (fst (process_group env g (this, out))) = cacheValidityMs this"
  "groupsCache (fst (process_group env g (this, out))) = groupsCache this"
  by (simp_all add: process_group_def Let_def split: sum.splits)

lemma fold_process_group_snapshot:
  "allProductsWithPrices (fst (fold (process_group env) gs st))
     = allProductsWithPrices (fst st) @ concat (map (entries_of env) gs)"
proof (induction gs arbitrary: st)
  case Nil
  then show ?case by simp
next
  case (Cons g gs)
  obtain this out where st: "st = (this, out)" by (cases st)
  show ?case
    by (simp add: Cons.IH st process_group_snapshot)
qed

lemma fold_process_group_fields:
  "fuse (fst (fold (process_group env) gs st)) = fuse (fst st)
   \<and> lastFetchTime (fst (fold (process_group env) gs st)) = lastFetchTime (fst st)
   \<and> cacheValidityMs (fst (fold (process_group env) gs st)) = cacheValidityMs (fst st)
   \<and> groupsCache (fst (fold (process_group env) gs st)) = groupsCache (fst st)"
proof (induction gs arbitrary: st)
  case Nil
  then show ?case by simp
next
  case (Cons g gs)
  obtain this out where st: "st = (this, out)" by (cases st)
  show ?case
    by (simp add: Cons.IH st process_group_fields)
qed

lemma initialize_cached:
  assumes "\<not> rebuilds now forceRefresh this"
  shows "initialize env now forceRefresh this = (Inr this, [Using_cached_product_data])"
  using assms by (auto simp: initialize_def rebuilds_def)

lemma initialize_fetchGroups_throws:
  assumes "rebuilds now forceRefresh this" and "fetchGroups env = Inl e"
  shows "initialize env now forceRefresh this = (Inl e, [Fetching_data])"
  using assms by (auto simp: initialize_def rebuilds_def)

lemma initialize_rebuild:
  assumes "rebuilds now forceRefresh this" and "fetchGroups env = Inr groups"
  shows "\<exists>this'. fst (initialize env now forceRefresh this) = Inr this'
           \<and> allProductsWithPrices this' = concat (map (entries_of env) (recentGroups env groups))
           \<and> fuse this' = Some (new_Fuse (allProductsWithPrices this'))
           \<and> lastFetchTime this' = now
           \<and> groupsCache this' = groups
           \<and> cacheValidityMs this' = cacheValidityMs this"
proof -
  define st0 :: "TCGPlayerService \<times> console_line list" where
    "st0 = (this\<lparr>groupsCache := groups, allProductsWithPrices := []\<rparr>,
            [Fetching_data, Fetched_groups (length groups),
             Processing_recent_groups (length (recentGroups env groups))])"
  define st where "st = fold (process_group env) (recentGroups env groups) st0"
  define this' where
    "this' = (fst st)\<lparr>lastFetchTime := now,
                       fuse := Some (new_Fuse (allProductsWithPrices (fst st)))\<rparr>"
  have "fst (initialize env now forceRefresh this) = Inr this'"
    unfolding this'_def st_def st0_def
    using assms by (auto simp: initialize_def rebuilds_def Let_def split_beta)
  moreover have "allProductsWithPrices this' = concat (map (entries_of env) (recentGroups env groups))"
    by (simp add: this'_def st_def fold_process_group_snapshot st0_def)
  moreover have "fuse this' = Some (new_Fuse (allProductsWithPrices this'))"
    by (simp add: this'_def)
  moreover have "lastFetchTime this' = now"
    by (simp add: this'_def)
  moreover have "groupsCache this' = groups" "cacheValidityMs this' = cacheValidityMs this"
    by (simp_all add: this'_def st_def fold_process_group_fields st0_def)
  ultimately show ?thesis by blast
qed

lemma entries_of_fails: "fetch_fails env g \<Longrightarrow> entries_of env g = []"
  by (auto simp: fetch_fails_def entries_of_def isl_def split: sum.splits)

lemma concat_map_filter_empty:
  assumes "\<And>x. x \<in> set xs \<Longrightarrow> \<not> P x \<Longrightarrow> f x = []"
  shows "concat (map f xs) = concat (map f (filter P xs))"
  using assms by (induction xs) auto

text \<open>
  Claim C5: when \<^verbatim>\<open>initialize\<close> rebuilds and the product or price fetch fails for the
  retained group \<open>G\<close> and for no retained group with another id, \<^verbatim>\<open>initialize\<close> returns
  without throwing, and the snapshot consists of the entries of every retained group
  except \<open>G\<close>, in the order the groups are processed.
\<close>

theorem initialize_isolates_group_failure:
  assumes "rebuilds now forceRefresh this"
    and "fetchGroups env = Inr groups"
    and "G \<in> set (recentGroups env groups)"
    and "fetch_fails env G"
    and "\<forall>g \<in> set (recentGroups env groups).
           TCGGroup.groupId g \<noteq> TCGGroup.groupId G \<longrightarrow> \<not> fetch_fails env g"
  shows "\<exists>this'. fst (initialize env now forceRefresh this) = Inr this'
           \<and> allProductsWithPrices this'
               = concat (map (entries_of env)
                   [g \<leftarrow> recentGroups env groups. TCGGroup.groupId g \<noteq> TCGGroup.groupId G])"
proof -
  have "entries_of env g = []"
    if "g \<in> set (recentGroups env groups)" "\<not> TCGGroup.groupId g \<noteq> TCGGroup.groupId G" for g
  proof -
    from that(2) assms(4) have "fetch_fails env g"
      by (simp add: fetch_fails_def)
    then show ?thesis by (rule entries_of_fails)
  qed
  then have "concat (map (entries_of env) (recentGroups env groups))
      = concat (map (entries_of env)
          [g \<leftarrow> recentGroups env groups. TCGGroup.groupId g \<noteq> TCGGroup.groupId G])"
    by (rule concat_map_filter_empty)
  with initialize_rebuild [OF assms(1,2)] show ?thesis by auto
qed

lemma sample_entries:
  "entries_of sample_env group_upcoming = [entry_booster]"
  "entries_of sample_env group_last_month = [entry_etb]"
  "entries_of sample_env group_failing = []"
  by (simp_all add: entries_of_def sample_env_simps group_upcoming_def group_last_month_def
        group_failing_def entry_booster_def entry_etb_def price_etb_foil_def
        price_etb_normal_def product_etb_def product_booster_def)

lemma sample_fetch_fails:
  "fetch_fails sample_env group_failing"
  "\<not> fetch_fails sample_env group_upcoming"
  "\<not> fetch_fails sample_env group_last_month"
  by (simp_all add: fetch_fails_def sample_env_simps group_upcoming_def group_last_month_def
        group_failing_def)

lemma sample_rebuilds: "rebuilds sample_now False tcgplayerService"
  by (simp add: rebuilds_def tcgplayerService_def)

lemma sample_service:
  "fst (initialize sample_env sample_now False tcgplayerService) = Inr sample_service"
  "allProductsWithPrices sample_service = [entry_booster, entry_etb]"
  "fuse sample_service = Some (new_Fuse [entry_booster, entry_etb])"
  "lastFetchTime sample_service = sample_now"
  "cacheValidityMs sample_service = 21600000"
proof -
  obtain this' where this': "fst (initialize sample_env sample_now False tcgplayerService) = Inr this'"
    "allProductsWithPrices this' = concat (map (entries_of sample_env)
        (recentGroups sample_env
           [group_last_month, group_three_years_ago, group_upcoming, group_failing]))"
    "fuse this' = Some (new_Fuse (allProductsWithPrices this'))"
    "lastFetchTime this' = sample_now"
    "cacheValidityMs this' = cacheValidityMs tcgplayerService"
    using initialize_rebuild [OF sample_rebuilds sample_env_simps(1)] by blast
  have eq: "sample_service = this'"
    by (simp add: sample_service_def this'(1))
  show "fst (initialize sample_env sample_now False tcgplayerService) = Inr sample_service"
    by (simp add: eq this'(1))
  show snapshot: "allProductsWithPrices sample_service = [entry_booster, entry_etb]"
    by (simp add: eq this'(2) sample_recentGroups sample_entries)
  show "fuse sample_service = Some (new_Fuse [entry_booster, entry_etb])"
    using snapshot by (simp add: eq this'(3))
  show "lastFetchTime sample_service = sample_now"
    by (simp add: eq this'(4))
  show "cacheValidityMs sample_service = 21600000"
    by (simp add: eq this'(5) tcgplayerService_def)
qed

lemma sample_reachable: "reachable sample_service"
  using reachable.start sample_service(1) by (rule reachable.step)

text \<open>
  Witness of C5: three retained groups, the fetch of the last one fails; the snapshot
  holds the entries of the other two.
\<close>

theorem initialize_isolates_group_failure_witness:
  "rebuilds sample_now False tcgplayerService
   \<and> fetchGroups sample_env
       = Inr [group_last_month, group_three_years_ago, group_upcoming, group_failing]
   \<and> recentGroups sample_env [group_last_month, group_three_years_ago, group_upcoming, group_failing]
       = [group_upcoming, group_last_month, group_failing]
   \<and> fetch_fails sample_env group_failing
   \<and> \<not> fetch_fails sample_env group_upcoming
   \<and> \<not> fetch_fails sample_env group_last_month
   \<and> (\<exists>this'. fst (initialize sample_env sample_now False tcgplayerService) = Inr this'
          \<and> allProductsWithPrices this' = [entry_booster, entry_etb])"
proof -
  let ?groups = "[group_last_month, group_three_years_ago, group_upcoming, group_failing]"
  have member: "group_failing \<in> set (recentGroups sample_env ?groups)"
    by (simp add: sample_recentGroups)
  have others: "\<forall>g \<in> set (recentGroups sample_env ?groups).
      TCGGroup.groupId g \<noteq> TCGGroup.groupId group_failing \<longrightarrow> \<not> fetch_fails sample_env g"
    by (simp add: sample_recentGroups sample_fetch_fails)
  have kept: "[g \<leftarrow> recentGroups sample_env ?groups.
                 TCGGroup.groupId g \<noteq> TCGGroup.groupId group_failing]
                = [group_upcoming, group_last_month]"
    unfolding sample_recentGroups
    by (simp add: group_upcoming_def group_last_month_def group_failing_def)
  from initialize_isolates_group_failure
         [OF sample_rebuilds sample_env_simps(1) member sample_fetch_fails(1) others]
  have "\<exists>this'. fst (initialize sample_env sample_now False tcgplayerService) = Inr this'
          \<and> allProductsWithPrices this' = [entry_booster, entry_etb]"
    by (simp add: kept sample_entries)
  then show ?thesis
    using sample_rebuilds sample_env_simps(1) sample_recentGroups sample_fetch_fails by simp
qed


section \<open>Search results\<close>

lemma reachable_index:
  "reachable this \<Longrightarrow> fuse this = None \<or> fuse this = Some (new_Fuse (allProductsWithPrices this))"
proof (induction rule: reachable.induct)
  case start
  then show ?case by (simp add: tcgplayerService_def)
next
  case (step this env now forceRefresh this')
  show ?case
  proof (cases "rebuilds now forceRefresh this")
    case False
    with step show ?thesis by (simp add: initialize_cached)
  next
    case True
    show ?thesis
    proof (cases "fetchGroups env")
      case (Inl e)
      with True step show ?thesis by (simp add: initialize_fetchGroups_throws)
    next
      case (Inr groups)
      from initialize_rebuild [OF True Inr] step.hyps(2) show ?thesis by auto
    qed
  qed
qed

lemma fuse_search_length:
  "0 \<le> limit \<Longrightarrow> length (fuse_search score index pattern limit) \<le> nat limit"
  by (simp add: fuse_search_def Let_def)

lemma fuse_search_scored:
  "(item, sc) \<in> set (fuse_search score index pattern limit)
     \<Longrightarrow> item \<in> set (docs index) \<and> score (options index) pattern item = Some sc"
proof -
  assume "(item, sc) \<in> set (fuse_search score index pattern limit)"
  then have "(item, sc) \<in> set (List.map_filter
                      (\<lambda>item. map_option (\<lambda>sc. (item, sc)) (score (options index) pattern item))
                      (docs index))"
    by (auto simp: fuse_search_def Let_def dest: in_set_takeD split: if_splits)
  then show ?thesis
    by (auto simp: List.map_filter_def)
qed

lemma fuse_search_sorted:
  "sorted (map snd (fuse_search score index pattern limit))"
proof -
  define ranked where "ranked = sort_key snd (List.map_filter
                      (\<lambda>item. map_option (\<lambda>sc. (item, sc)) (score (options index) pattern item))
                      (docs index))"
  have ranked: "sorted (map snd ranked)"
    by (simp add: ranked_def)
  then have "sorted (take n (map snd ranked))" for n
    by (rule sorted_wrt_take)
  then have "sorted (map snd (take n ranked))" for n
    by (simp add: take_map)
  with ranked show ?thesis
    by (simp add: fuse_search_def Let_def ranked_def [symmetric])
qed

text \<open>
  Claim C7, amended: in every state between calls, for every query and every limit
  \<open>n \<ge> 0\<close>, \<^verbatim>\<open>searchProducts\<close> returns at most \<open>n\<close> items, every returned item is an
  element of \<^verbatim>\<open>allProductsWithPrices\<close>, and the items are ordered best match first: each
  has a score for the cleaned query, and the scores do not decrease.
\<close>

theorem searchProducts_results:
  assumes "reachable this" and "0 \<le> limit"
  shows "(let results = fst (searchProducts score query limit this)
          in length results \<le> nat limit
             \<and> set results \<subseteq> set (allProductsWithPrices this)
             \<and> (\<exists>scores. map (score fuse_options (search_query query)) results = map Some scores
                           \<and> sorted scores))"
proof (cases "fuse this")
  case None
  then show ?thesis by (simp add: searchProducts_def)
next
  case (Some index)
  with reachable_index [OF assms(1)]
  have index: "docs index = allProductsWithPrices this" "options index = fuse_options"
    by (simp_all add: new_Fuse_def)
  define found where "found = fuse_search score index (search_query query) limit"
  have results: "fst (searchProducts score query limit this) = map fst found"
    by (simp add: searchProducts_def Some found_def Let_def)
  have "length (map fst found) \<le> nat limit"
    using fuse_search_length [OF assms(2)] by (simp add: found_def)
  moreover have "set (map fst found) \<subseteq> set (allProductsWithPrices this)"
    using fuse_search_scored [of _ _ score index] index by (fastforce simp: found_def)
  moreover have "map (score fuse_options (search_query query)) (map fst found) = map Some (map snd found)"
    using fuse_search_scored [of _ _ score index] index by (fastforce simp: found_def)
  moreover have "sorted (map snd found)"
    by (simp add: found_def fuse_search_sorted)
  ultimately show ?thesis
    unfolding results Let_def by blast
qed

lemma sample_search:
  "fst (searchProducts sample_score (js ''151 etb'') 1 sample_service) = [entry_etb]"
  by (simp add: searchProducts_def sample_service fuse_search_def new_Fuse_def sample_score_def
        sample_prices Let_def)

text \<open>Witness of C7: the best match of a snapshot of two entries, with limit 1.\<close>

theorem searchProducts_results_witness:
  "reachable sample_service \<and> (0::int) \<le> 1
   \<and> allProductsWithPrices sample_service = [entry_booster, entry_etb]
   \<and> fst (searchProducts sample_score (js ''151 etb'') 1 sample_service) = [entry_etb]
   \<and> length (fst (searchProducts sample_score (js ''151 etb'') 1 sample_service)) \<le> nat 1
   \<and> set (fst (searchProducts sample_score (js ''151 etb'') 1 sample_service))
        \<subseteq> set (allProductsWithPrices sample_service)"
proof -
  have "(0::int) \<le> 1" by simp
  from searchProducts_results [OF sample_reachable this, of sample_score "js ''151 etb''"]
  show ?thesis
    using sample_reachable by (simp add: Let_def sample_search sample_service)
qed

text \<open>
  Claim C7 as stated holds for every limit. A negative limit does not truncate: the
  search of the library slices its result only for a limit greater than -1, so with
  limit -1 \<^verbatim>\<open>searchProducts\<close> returns both entries of the snapshot, more than the limit.
\<close>

theorem searchProducts_negative_limit:
  "reachable sample_service
   \<and> fst (searchProducts sample_score (js ''151 etb'') (- 1) sample_service)
       = [entry_etb, entry_booster]
   \<and> \<not> int (length (fst (searchProducts sample_score (js ''151 etb'') (- 1) sample_service)))
         \<le> - 1"
  using sample_reachable
  by (simp add: searchProducts_def sample_service fuse_search_def new_Fuse_def sample_score_def
        sample_prices Let_def)


section \<open>Cache freshness\<close>

text \<open>
  Claim C1 as stated lets a query that arrives at or after
  \<open>lastFetchTime + cacheValidityMs\<close> trigger a rebuild. \<^verbatim>\<open>searchProducts\<close> never calls
  \<^verbatim>\<open>initialize\<close>: a query six hours after the build leaves the service as it is, with
  the old \<open>lastFetchTime\<close>.
\<close>

theorem searchProducts_never_rebuilds:
  "allProductsWithPrices sample_service \<noteq> []
   \<and> lastFetchTime sample_service + cacheValidityMs sample_service \<le> sample_now + 21600000
   \<and> snd (snd (searchProducts sample_score (js ''151 etb'') 5 sample_service)) = sample_service
   \<and> lastFetchTime (snd (snd (searchProducts sample_score (js ''151 etb'') 5 sample_service)))
        \<noteq> sample_now + 21600000"
  by (simp add: searchProducts_def sample_service sample_dates Let_def)

text \<open>
  Claim C1, amended: \<^verbatim>\<open>searchProducts\<close> leaves the service unchanged at any time. The
  validity window is applied by \<^verbatim>\<open>initialize\<close> (without \<^verbatim>\<open>forceRefresh\<close>): on a non-empty
  snapshot, a call at \<open>now < lastFetchTime + cacheValidityMs\<close> returns at once and changes
  nothing; a call at \<open>now \<ge> lastFetchTime + cacheValidityMs\<close> rebuilds: it throws when
  \<^verbatim>\<open>fetchGroups\<close> throws, and otherwise installs the fetched groups, the new snapshot, the
  index over it and \<open>lastFetchTime = now\<close>.
\<close>

theorem initialize_freshness:
  "snd (snd (searchProducts score query limit this)) = this
   \<and> (allProductsWithPrices this \<noteq> [] \<and> now < lastFetchTime this + cacheValidityMs this
        \<longrightarrow> initialize env now False this = (Inr this, [Using_cached_product_data]))
   \<and> (allProductsWithPrices this \<noteq> [] \<and> lastFetchTime this + cacheValidityMs this \<le> now
        \<longrightarrow> (case fetchGroups env of
               Inl e \<Rightarrow> fst (initialize env now False this) = Inl e
             | Inr groups \<Rightarrow>
                 (\<exists>this'. fst (initialize env now False this) = Inr this'
                    \<and> groupsCache this' = groups
                    \<and> allProductsWithPrices this'
                        = concat (map (entries_of env) (recentGroups env groups))
                    \<and> fuse this' = Some (new_Fuse (allProductsWithPrices this'))
                    \<and> lastFetchTime this' = now)))"
proof (intro conjI impI)
  show "snd (snd (searchProducts score query limit this)) = this"
    by (simp add: searchProducts_def Let_def split: option.splits)
next
  assume "allProductsWithPrices this \<noteq> [] \<and> now < lastFetchTime this + cacheValidityMs this"
  then have "\<not> rebuilds now False this"
    by (auto simp: rebuilds_def)
  then show "initialize env now False this = (Inr this, [Using_cached_product_data])"
    by (rule initialize_cached)
next
  assume "allProductsWithPrices this \<noteq> [] \<and> lastFetchTime this + cacheValidityMs this \<le> now"
  then have rb: "rebuilds now False this"
    by (auto simp: rebuilds_def)
  show "case fetchGroups env of
               Inl e \<Rightarrow> fst (initialize env now False this) = Inl e
             | Inr groups \<Rightarrow>
                 (\<exists>this'. fst (initialize env now False this) = Inr this'
                    \<and> groupsCache this' = groups
                    \<and> allProductsWithPrices this'
                        = concat (map (entries_of env) (recentGroups env groups))
                    \<and> fuse this' = Some (new_Fuse (allProductsWithPrices this'))
                    \<and> lastFetchTime this' = now)"
  proof (cases "fetchGroups env")
    case (Inl e)
    then show ?thesis by (simp add: initialize_fetchGroups_throws [OF rb Inl])
  next
    case (Inr groups)
    from initialize_rebuild [OF rb Inr] show ?thesis
      unfolding Inr by auto
  qed
qed

text \<open>
  Witness of C1: a call one millisecond before the end of the window of six hours, and
  a call at its end.
\<close>

theorem initialize_freshness_witness:
  "allProductsWithPrices sample_service \<noteq> []
   \<and> sample_now + 21599999 < lastFetchTime sample_service + cacheValidityMs sample_service
   \<and> initialize sample_env (sample_now + 21599999) False sample_service
       = (Inr sample_service, [Using_cached_product_data])
   \<and> lastFetchTime sample_service + cacheValidityMs sample_service \<le> sample_now + 21600000
   \<and> (\<exists>this'. fst (initialize sample_env (sample_now + 21600000) False sample_service) = Inr this'
          \<and> lastFetchTime this' = sample_now + 21600000)
   \<and> snd (snd (searchProducts sample_score (js ''151 etb'') 5 sample_service)) = sample_service"
proof -
  have fresh: "allProductsWithPrices sample_service \<noteq> []
      \<and> sample_now + 21599999 < lastFetchTime sample_service + cacheValidityMs sample_service"
    by (simp add: sample_service sample_dates)
  have stale: "allProductsWithPrices sample_service \<noteq> []
      \<and> lastFetchTime sample_service + cacheValidityMs sample_service \<le> sample_now + 21600000"
    by (simp add: sample_service sample_dates)
  from initialize_freshness
         [of sample_score "js ''151 etb''" 5 sample_service "sample_now + 21599999" sample_env]
       initialize_freshness
         [of sample_score "js ''151 etb''" 5 sample_service "sample_now + 21600000" sample_env]
  show ?thesis
    using fresh stale by (auto simp: sample_env_simps)
qed

end
